theory Spec2Isabelle
  imports Complex_Main
begin

section \<open>Data model\<close>

text \<open>
  The filter of \<^verbatim>\<open>EKF/drag_fusion.cpp\<close> works on single precision floats.  They are
  modelled by the real numbers: \<^verbatim>\<open>fmaxf\<close> is \<open>max\<close>, \<^verbatim>\<open>fabsf\<close> is \<open>abs\<close>,
  \<^verbatim>\<open>sqrtf\<close> is \<open>sqrt\<close>, \<^verbatim>\<open>powf(x, 2)\<close> is \<open>x ^ 2\<close>.  Rounding, infinities and NaN
  are outside the model; the control flow, the order of the reads and writes and the
  expressions are those of the source.  Division is that of the reals, where \<open>x / 0\<close> is
  \<open>0\<close>: a division by zero of the source, which yields NaN or an infinity, is outside the
  model as well, and a property that rests on the value of a quotient excludes the zero
  divisor by a premise.

  A vector is a function from its index, a matrix a function from row and column.
\<close>

type_synonym vec = "nat \<Rightarrow> real"
type_synonym mat = "nat \<Rightarrow> nat \<Rightarrow> real"

text \<open>
  Modelled from the spec: the declaration of the state struct (\<^verbatim>\<open>_state\<close>) is not under
  \<^verbatim>\<open>src/\<close>.  The source reads its members \<^verbatim>\<open>quat_nominal\<close>, \<^verbatim>\<open>vel\<close>,
  \<^verbatim>\<open>delta_vel_bias\<close> and \<^verbatim>\<open>wind_vel\<close>; the spec (section 3) describes an ordered
  collection of scalar components, and the source has 24 of them (\<^verbatim>\<open>Kfusion[24]\<close>), the
  quaternion first (state indices 0 to 3), the velocity next (4 to 6) and the wind velocity
  last (22 and 23), as its comments on \<^verbatim>\<open>Hfusion\<close> say.  The members in between stand
  for the remaining 15 states (7 to 21), the bias that corrects the measurement among them.
\<close>

record stateSample =
  quat_nominal :: vec
  vel :: vec
  pos :: vec
  delta_ang_bias :: vec
  delta_vel_bias :: vec
  mag_I :: vec
  mag_B :: vec
  wind_vel :: vec

record parameters =
  drag_noise :: real
  bcoef_x :: real
  bcoef_y :: real

record dragSample =
  accelXY :: vec

record Ekf =
  state :: stateSample
  P :: mat
  params :: parameters
  air_density :: real
  drag_sample_delayed :: dragSample
  dt_ekf_avg :: real
  drag_innov :: vec
  drag_innov_var :: vec
  drag_test_ratio :: vec

text \<open>The number of states, \<^verbatim>\<open>_k_num_states\<close> (the size of \<^verbatim>\<open>Kfusion\<close>).\<close>

definition k_num_states :: nat where
  "k_num_states = 24"

text \<open>
  Modelled from the spec: \<^verbatim>\<open>sq\<close> is not under \<^verbatim>\<open>src/\<close>; it is the square
  (\<open>innovation\<^sup>2\<close> in section 4.3 of the spec).
\<close>

definition sq :: "real \<Rightarrow> real" where
  "sq x = x * x"

text \<open>
  Modelled from the spec: \<^verbatim>\<open>quatToInverseRotMat\<close> is not under \<^verbatim>\<open>src/\<close>.  Section 4.1
  (item 4) has it rotate an earth frame vector into the body frame with the current
  orientation: the transpose of the rotation matrix of the quaternion.
\<close>

definition quatToInverseRotMat :: "vec \<Rightarrow> mat" where
  "quatToInverseRotMat quat =
    (let q00 = quat 0 * quat 0; q11 = quat 1 * quat 1;
         q22 = quat 2 * quat 2; q33 = quat 3 * quat 3;
         q01 = quat 0 * quat 1; q02 = quat 0 * quat 2; q03 = quat 0 * quat 3;
         q12 = quat 1 * quat 2; q13 = quat 1 * quat 3; q23 = quat 2 * quat 3
     in (\<lambda>r c.
          if r = 0 \<and> c = 0 then q00 + q11 - q22 - q33
          else if r = 1 \<and> c = 1 then q00 - q11 + q22 - q33
          else if r = 2 \<and> c = 2 then q00 - q11 - q22 + q33
          else if r = 1 \<and> c = 0 then 2 * (q12 - q03)
          else if r = 2 \<and> c = 0 then 2 * (q13 + q02)
          else if r = 0 \<and> c = 1 then 2 * (q12 + q03)
          else if r = 2 \<and> c = 1 then 2 * (q23 - q01)
          else if r = 0 \<and> c = 2 then 2 * (q13 - q02)
          else if r = 1 \<and> c = 2 then 2 * (q23 + q01)
          else 0))"

text \<open>The product of a 3 by 3 matrix and a vector of 3 components.\<close>

definition mat_vec3 :: "mat \<Rightarrow> vec \<Rightarrow> vec" where
  "mat_vec3 m v = (\<lambda>r. m r 0 * v 0 + m r 1 * v 1 + m r 2 * v 2)"

definition Vector3f :: "real \<Rightarrow> real \<Rightarrow> real \<Rightarrow> vec" where
  "Vector3f x y z = (\<lambda>i. if i = 0 then x else if i = 1 then y else if i = 2 then z else 0)"

section \<open>The locals of \<^verbatim>\<open>Ekf::fuseDrag\<close> set before the loop\<close>

text \<open>
  The orientation, the velocity, the wind velocity and the relative wind in the body frame
  are read once, before the loop over the two axes; the second axis works on these values
  even when the first axis has corrected the state.
\<close>

record locals =
  R_ACC :: real
  rho :: real
  BC_inv_x :: real
  BC_inv_y :: real
  q0 :: real
  q1 :: real
  q2 :: real
  q3 :: real
  vn :: real
  ve :: real
  vd :: real
  vwn :: real
  vwe :: real
  rel_wind_body :: vec

definition fuseDrag_locals :: "Ekf \<Rightarrow> locals" where
  "fuseDrag_locals e =
    \<lparr> R_ACC = sq (drag_noise (params e)),
      rho = max (air_density e) (1/10),
      BC_inv_x = 1 / bcoef_x (params e),
      BC_inv_y = 1 / bcoef_y (params e),
      q0 = quat_nominal (state e) 0,
      q1 = quat_nominal (state e) 1,
      q2 = quat_nominal (state e) 2,
      q3 = quat_nominal (state e) 3,
      vn = vel (state e) 0,
      ve = vel (state e) 1,
      vd = vel (state e) 2,
      vwn = wind_vel (state e) 0,
      vwe = wind_vel (state e) 1,
      rel_wind_body =
        mat_vec3 (quatToInverseRotMat (quat_nominal (state e)))
          (Vector3f (vel (state e) 0 - wind_vel (state e) 0)
                    (vel (state e) 1 - wind_vel (state e) 1)
                    (vel (state e) 2)) \<rparr>"

section \<open>The gain vector and its unassigned entries\<close>

text \<open>
  \<^verbatim>\<open>float Kfusion[24];\<close> is declared without an initialiser.  An entry is \<open>None\<close> until
  the code assigns it; reading such an entry yields the value the memory happens to hold,
  which the model takes as a parameter (\<open>indet\<close>).
\<close>

type_synonym gain = "nat \<Rightarrow> real option"

definition read_gain :: "vec \<Rightarrow> gain \<Rightarrow> nat \<Rightarrow> real" where
  "read_gain indet Kfusion i = (case Kfusion i of Some v \<Rightarrow> v | None \<Rightarrow> indet i)"

text \<open>
  The body of one pass of the loop either leaves the whole function (\<^verbatim>\<open>return\<close>) or goes on
  to the consistency check with the Jacobian and the gain.
\<close>

datatype flow = Return Ekf | Next Ekf "real list" gain

section \<open>Jacobian, innovation variance and gain of each axis\<close>

definition fuseDrag_axis_x :: "locals \<Rightarrow> gain \<Rightarrow> Ekf \<Rightarrow> flow" where
  "fuseDrag_axis_x l Kfusion e =
    (let axis_index = 0;
       mea_acc = accelXY (drag_sample_delayed e) axis_index
                   - delta_vel_bias (state e) axis_index / dt_ekf_avg e;
       airSpd = sqrt ((2 * \<bar>mea_acc\<bar>) / (BC_inv_x l * rho l));
       Kaccx = max (1/10) (rho l * BC_inv_x l * airSpd);
       HK0 = vn l - vwn l;
       HK1 = ve l - vwe l;
       HK2 = HK0 * q0 l + HK1 * q3 l - q2 l * vd l;
       HK3 = 2 * Kaccx;
       HK4 = HK0 * q1 l + HK1 * q2 l + q3 l * vd l;
       HK5 = HK0 * q2 l - HK1 * q1 l + q0 l * vd l;
       HK6 = - HK0 * q3 l + HK1 * q0 l + q1 l * vd l;
       HK7 = q0 l ^ 2 + q1 l ^ 2 - q2 l ^ 2 - q3 l ^ 2;
       HK8 = HK7 * Kaccx;
       HK9 = q0 l * q3 l + q1 l * q2 l;
       HK10 = HK3 * HK9;
       HK11 = q0 l * q2 l - q1 l * q3 l;
       HK12 = 2 * HK9;
       HK13 = 2 * HK11;
       HK14 = 2 * HK4;
       HK15 = 2 * HK2;
       HK16 = 2 * HK5;
       HK17 = 2 * HK6;
       HK18 = - HK12 * P e 0 23 + HK12 * P e 0 5 - HK13 * P e 0 6 + HK14 * P e 0 1 + HK15 * P e 0 0 - HK16 * P e 0 2 + HK17 * P e 0 3 - HK7 * P e 0 22 + HK7 * P e 0 4;
       HK19 = HK12 * P e 5 23;
       HK20 = - HK12 * P e 23 23 - HK13 * P e 6 23 + HK14 * P e 1 23 + HK15 * P e 0 23 - HK16 * P e 2 23 + HK17 * P e 3 23 + HK19 - HK7 * P e 22 23 + HK7 * P e 4 23;
       HK21 = Kaccx ^ 2;
       HK22 = HK12 * HK21;
       HK23 = HK12 * P e 5 5 - HK13 * P e 5 6 + HK14 * P e 1 5 + HK15 * P e 0 5 - HK16 * P e 2 5 + HK17 * P e 3 5 - HK19 + HK7 * P e 4 5 - HK7 * P e 5 22;
       HK24 = HK12 * P e 5 6 - HK12 * P e 6 23 - HK13 * P e 6 6 + HK14 * P e 1 6 + HK15 * P e 0 6 - HK16 * P e 2 6 + HK17 * P e 3 6 + HK7 * P e 4 6 - HK7 * P e 6 22;
       HK25 = HK7 * P e 4 22;
       HK26 = - HK12 * P e 4 23 + HK12 * P e 4 5 - HK13 * P e 4 6 + HK14 * P e 1 4 + HK15 * P e 0 4 - HK16 * P e 2 4 + HK17 * P e 3 4 - HK25 + HK7 * P e 4 4;
       HK27 = HK21 * HK7;
       HK28 = - HK12 * P e 22 23 + HK12 * P e 5 22 - HK13 * P e 6 22 + HK14 * P e 1 22 + HK15 * P e 0 22 - HK16 * P e 2 22 + HK17 * P e 3 22 + HK25 - HK7 * P e 22 22;
       HK29 = - HK12 * P e 1 23 + HK12 * P e 1 5 - HK13 * P e 1 6 + HK14 * P e 1 1 + HK15 * P e 0 1 - HK16 * P e 1 2 + HK17 * P e 1 3 - HK7 * P e 1 22 + HK7 * P e 1 4;
       HK30 = - HK12 * P e 2 23 + HK12 * P e 2 5 - HK13 * P e 2 6 + HK14 * P e 1 2 + HK15 * P e 0 2 - HK16 * P e 2 2 + HK17 * P e 2 3 - HK7 * P e 2 22 + HK7 * P e 2 4;
       HK31 = - HK12 * P e 3 23 + HK12 * P e 3 5 - HK13 * P e 3 6 + HK14 * P e 1 3 + HK15 * P e 0 3 - HK16 * P e 2 3 + HK17 * P e 3 3 - HK7 * P e 3 22 + HK7 * P e 3 4;
       e1 = e\<lparr>drag_innov_var := (drag_innov_var e)(0 :=
              (- HK13 * HK21 * HK24 + HK14 * HK21 * HK29 + HK15 * HK18 * HK21 - HK16 * HK21 * HK30 + HK17 * HK21 * HK31 - HK20 * HK22 + HK22 * HK23 + HK26 * HK27 - HK27 * HK28 + R_ACC l))\<rparr>
     in if drag_innov_var e1 0 < R_ACC l then Return e1
        else
         (let HK32 = Kaccx / drag_innov_var e1 0;
            Hfusion = [- HK2 * HK3, - HK3 * HK4, HK3 * HK5, - HK3 * HK6, - HK8, - HK10,
                       HK11 * HK3, HK8, HK10];
            Kfusion1 = Kfusion(22 \<mapsto> - HK28 * HK32);
            Kfusion2 = Kfusion1(23 \<mapsto> - HK20 * HK32);
            drag_sign = (if rel_wind_body l axis_index \<ge> 0 then 1 else -1);
            predAccel = - BC_inv_x l * (1/2) * rho l * sq (rel_wind_body l axis_index) * drag_sign;
            e2 = e1\<lparr>drag_innov := (drag_innov e1)(axis_index := predAccel - mea_acc)\<rparr>;
            e3 = e2\<lparr>drag_test_ratio := (drag_test_ratio e2)(axis_index :=
                   sq (drag_innov e2 axis_index) / (25 * drag_innov_var e2 axis_index))\<rparr>
          in Next e3 Hfusion Kfusion2))"

definition fuseDrag_axis_y :: "locals \<Rightarrow> gain \<Rightarrow> Ekf \<Rightarrow> flow" where
  "fuseDrag_axis_y l Kfusion e =
    (let axis_index = 1;
       mea_acc = accelXY (drag_sample_delayed e) axis_index
                   - delta_vel_bias (state e) axis_index / dt_ekf_avg e;
       airSpd = sqrt ((2 * \<bar>mea_acc\<bar>) / (BC_inv_y l * rho l));
       Kaccy = max (1/10) (rho l * BC_inv_y l * airSpd);
       HK0 = ve l - vwe l;
       HK1 = vn l - vwn l;
       HK2 = HK0 * q0 l - HK1 * q3 l + q1 l * vd l;
       HK3 = 2 * Kaccy;
       HK4 = - HK0 * q1 l + HK1 * q2 l + q0 l * vd l;
       HK5 = HK0 * q2 l + HK1 * q1 l + q3 l * vd l;
       HK6 = HK0 * q3 l + HK1 * q0 l - q2 l * vd l;
       HK7 = q0 l * q3 l - q1 l * q2 l;
       HK8 = HK3 * HK7;
       HK9 = q0 l ^ 2 - q1 l ^ 2 + q2 l ^ 2 - q3 l ^ 2;
       HK10 = HK9 * Kaccy;
       HK11 = q0 l * q1 l + q2 l * q3 l;
       HK12 = 2 * HK11;
       HK13 = 2 * HK7;
       HK14 = 2 * HK5;
       HK15 = 2 * HK2;
       HK16 = 2 * HK4;
       HK17 = 2 * HK6;
       HK18 = HK12 * P e 0 6 + HK13 * P e 0 22 - HK13 * P e 0 4 + HK14 * P e 0 2 + HK15 * P e 0 0 + HK16 * P e 0 1 - HK17 * P e 0 3 - HK9 * P e 0 23 + HK9 * P e 0 5;
       HK19 = Kaccy ^ 2;
       HK20 = HK12 * P e 6 6 - HK13 * P e 4 6 + HK13 * P e 6 22 + HK14 * P e 2 6 + HK15 * P e 0 6 + HK16 * P e 1 6 - HK17 * P e 3 6 + HK9 * P e 5 6 - HK9 * P e 6 23;
       HK21 = HK13 * P e 4 22;
       HK22 = HK12 * P e 6 22 + HK13 * P e 22 22 + HK14 * P e 2 22 + HK15 * P e 0 22 + HK16 * P e 1 22 - HK17 * P e 3 22 - HK21 - HK9 * P e 22 23 + HK9 * P e 5 22;
       HK23 = HK13 * HK19;
       HK24 = HK12 * P e 4 6 - HK13 * P e 4 4 + HK14 * P e 2 4 + HK15 * P e 0 4 + HK16 * P e 1 4 - HK17 * P e 3 4 + HK21 - HK9 * P e 4 23 + HK9 * P e 4 5;
       HK25 = HK9 * P e 5 23;
       HK26 = HK12 * P e 5 6 - HK13 * P e 4 5 + HK13 * P e 5 22 + HK14 * P e 2 5 + HK15 * P e 0 5 + HK16 * P e 1 5 - HK17 * P e 3 5 - HK25 + HK9 * P e 5 5;
       HK27 = HK19 * HK9;
       HK28 = HK12 * P e 6 23 + HK13 * P e 22 23 - HK13 * P e 4 23 + HK14 * P e 2 23 + HK15 * P e 0 23 + HK16 * P e 1 23 - HK17 * P e 3 23 + HK25 - HK9 * P e 23 23;
       HK29 = HK12 * P e 2 6 + HK13 * P e 2 22 - HK13 * P e 2 4 + HK14 * P e 2 2 + HK15 * P e 0 2 + HK16 * P e 1 2 - HK17 * P e 2 3 - HK9 * P e 2 23 + HK9 * P e 2 5;
       HK30 = HK12 * P e 1 6 + HK13 * P e 1 22 - HK13 * P e 1 4 + HK14 * P e 1 2 + HK15 * P e 0 1 + HK16 * P e 1 1 - HK17 * P e 1 3 - HK9 * P e 1 23 + HK9 * P e 1 5;
       HK31 = HK12 * P e 3 6 + HK13 * P e 3 22 - HK13 * P e 3 4 + HK14 * P e 2 3 + HK15 * P e 0 3 + HK16 * P e 1 3 - HK17 * P e 3 3 - HK9 * P e 3 23 + HK9 * P e 3 5;
       e1 = e\<lparr>drag_innov_var := (drag_innov_var e)(1 :=
              (HK12 * HK19 * HK20 + HK14 * HK19 * HK29 + HK15 * HK18 * HK19 + HK16 * HK19 * HK30 - HK17 * HK19 * HK31 + HK22 * HK23 - HK23 * HK24 + HK26 * HK27 - HK27 * HK28 + R_ACC l))\<rparr>
     in if drag_innov_var e1 1 < R_ACC l then Return e1
        else
         (let HK32 = Kaccy / drag_innov_var e1 1;
            Hfusion = [- HK2 * HK3, - HK3 * HK4, HK3 * HK5, - HK3 * HK6, - HK8, - HK10,
                       HK11 * HK3, HK8, HK10];
            Kfusion1 = Kfusion(22 \<mapsto> - HK28 * HK32);
            Kfusion2 = Kfusion1(23 \<mapsto> - HK20 * HK32);
            drag_sign = (if rel_wind_body l axis_index \<ge> 0 then 1 else -1);
            predAccel = - BC_inv_y l * (1/2) * rho l * sq (rel_wind_body l axis_index) * drag_sign;
            e2 = e1\<lparr>drag_innov := (drag_innov e1)(axis_index := predAccel - mea_acc)\<rparr>;
            e3 = e2\<lparr>drag_test_ratio := (drag_test_ratio e2)(axis_index :=
                   sq (drag_innov e2 axis_index) / (25 * drag_innov_var e2 axis_index))\<rparr>
          in Next e3 Hfusion Kfusion2))"

section \<open>Helpers of the filter that the update calls\<close>

text \<open>
  Modelled from the spec: \<^verbatim>\<open>uncorrelateCovarianceSetVariance\<close> is not under \<^verbatim>\<open>src/\<close>.
  Section 4.4 of the spec: the row and the column of the state in the covariance are
  decorrelated (set to zero) and its variance is reset to the given value.
\<close>

definition uncorrelateCovarianceSetVariance :: "nat \<Rightarrow> real \<Rightarrow> mat \<Rightarrow> mat" where
  "uncorrelateCovarianceSetVariance first val M =
    (\<lambda>r c. if r = first \<or> c = first then (if r = c then val else 0) else M r c)"

text \<open>
  Modelled from the spec: \<^verbatim>\<open>Ekf::fuse\<close> is not under \<^verbatim>\<open>src/\<close>.  Section 4.5 of the
  spec: \<open>state \<leftarrow> state - K \<cdot> innovation\<close>, component by component in the order of the
  state indices, with no renormalisation.
\<close>

definition fuse :: "vec \<Rightarrow> real \<Rightarrow> stateSample \<Rightarrow> stateSample" where
  "fuse K innovation s =
    \<lparr> quat_nominal = (\<lambda>i. if i < 4 then quat_nominal s i - K i * innovation else quat_nominal s i),
      vel = (\<lambda>i. if i < 3 then vel s i - K (i + 4) * innovation else vel s i),
      pos = (\<lambda>i. if i < 3 then pos s i - K (i + 7) * innovation else pos s i),
      delta_ang_bias =
        (\<lambda>i. if i < 3 then delta_ang_bias s i - K (i + 10) * innovation else delta_ang_bias s i),
      delta_vel_bias =
        (\<lambda>i. if i < 3 then delta_vel_bias s i - K (i + 13) * innovation else delta_vel_bias s i),
      mag_I = (\<lambda>i. if i < 3 then mag_I s i - K (i + 16) * innovation else mag_I s i),
      mag_B = (\<lambda>i. if i < 3 then mag_B s i - K (i + 19) * innovation else mag_B s i),
      wind_vel = (\<lambda>i. if i < 2 then wind_vel s i - K (i + 22) * innovation else wind_vel s i) \<rparr>"

text \<open>
  \<^verbatim>\<open>Ekf::fixCovarianceErrors\<close> is not under \<^verbatim>\<open>src/\<close> either, and the spec leaves it to
  the surrounding filter (section 1), naming only what it is for.  The model takes it as a
  parameter \<open>fixCovarianceErrors\<close>: from the filter, whose covariance already holds
  \<open>P - KHP\<close>, to the repaired covariance.  What follows is one routine of that kind, used
  where a concrete one is needed.

  Modelled from the spec: section 4.4, "the external covariance-repair routine
  (symmetrization / bound enforcement)": the matrix is made symmetric and its variances
  are kept from falling below zero.
\<close>

definition fixCovarianceErrors_spec :: "Ekf \<Rightarrow> mat" where
  "fixCovarianceErrors_spec e =
    (\<lambda>r c. if r = c then max 0 (P e r r) else (P e r c + P e c r) / 2)"

section \<open>Consistency check, covariance correction and state correction\<close>

text \<open>
  The two nested loops that fill \<^verbatim>\<open>KHP\<close>: the entry of a row and a column depends on
  nothing the loops write, so the matrix is given entry by entry.  \<^verbatim>\<open>Kfusion[row]\<close> is
  read for each of the 24 rows.
\<close>

definition KHP_of :: "vec \<Rightarrow> gain \<Rightarrow> real list \<Rightarrow> mat \<Rightarrow> mat" where
  "KHP_of indet Kfusion Hfusion Pm =
    (\<lambda>row column.
       if row < k_num_states \<and> column < k_num_states then
         (let KH = map (\<lambda>index. read_gain indet Kfusion row * Hfusion ! index) [0..<9]
          in KH ! 0 * Pm 0 column + KH ! 1 * Pm 1 column + KH ! 2 * Pm 2 column
             + KH ! 3 * Pm 3 column + KH ! 4 * Pm 4 column + KH ! 5 * Pm 5 column
             + KH ! 6 * Pm 6 column + KH ! 7 * Pm 22 column + KH ! 8 * Pm 23 column)
       else 0)"

text \<open>
  The loop over the variances: \<^verbatim>\<open>for (int i = 0; i < _k_num_states; i++)\<close>.  It works on
  the covariance as the earlier passes have left it.
\<close>

fun healthy_loop :: "mat \<Rightarrow> nat list \<Rightarrow> mat \<times> bool \<Rightarrow> mat \<times> bool" where
  "healthy_loop KHP [] (Pm, healthy) = (Pm, healthy)"
| "healthy_loop KHP (i # rest) (Pm, healthy) =
    (if Pm i i < KHP i i
     then healthy_loop KHP rest (uncorrelateCovarianceSetVariance i 0 Pm, False)
     else healthy_loop KHP rest (Pm, healthy))"

definition fuseDrag_update ::
  "(Ekf \<Rightarrow> mat) \<Rightarrow> vec \<Rightarrow> gain \<Rightarrow> real list \<Rightarrow> nat \<Rightarrow> Ekf \<Rightarrow> Ekf" where
  "fuseDrag_update fixCovarianceErrors indet Kfusion Hfusion axis_index e =
    (if drag_test_ratio e axis_index \<le> 1 then
       (let KHP = KHP_of indet Kfusion Hfusion (P e);
            checked = healthy_loop KHP [0..<k_num_states] (P e, True);
            e1 = e\<lparr>P := fst checked\<rparr>
        in if snd checked then
             (let e2 = e1\<lparr>P := (\<lambda>r c. P e1 r c - KHP r c)\<rparr>;
                  e3 = e2\<lparr>P := fixCovarianceErrors e2\<rparr>
              in e3\<lparr>state := fuse (read_gain indet Kfusion) (drag_innov e3 axis_index) (state e3)\<rparr>)
           else e1)
     else e)"

section \<open>\<^verbatim>\<open>Ekf::fuseDrag\<close>\<close>

definition fuseDrag_axis :: "locals \<Rightarrow> nat \<Rightarrow> real list \<Rightarrow> gain \<Rightarrow> Ekf \<Rightarrow> flow" where
  "fuseDrag_axis l axis_index Hfusion Kfusion e =
    (if axis_index = 0 then fuseDrag_axis_x l Kfusion e
     else if axis_index = 1 then fuseDrag_axis_y l Kfusion e
     else Next e Hfusion Kfusion)"

text \<open>
  The loop \<^verbatim>\<open>for (uint8_t axis_index = 0; axis_index < 2; axis_index++)\<close>, over the list
  of its indices.  \<^verbatim>\<open>Hfusion\<close> and \<^verbatim>\<open>Kfusion\<close> are declared outside the loop and live
  through both passes.
\<close>

fun fuseDrag_loop ::
  "(Ekf \<Rightarrow> mat) \<Rightarrow> vec \<Rightarrow> locals \<Rightarrow> nat list \<Rightarrow> real list \<Rightarrow> gain \<Rightarrow> Ekf \<Rightarrow> Ekf" where
  "fuseDrag_loop fixCovarianceErrors indet l [] Hfusion Kfusion e = e"
| "fuseDrag_loop fixCovarianceErrors indet l (axis_index # rest) Hfusion Kfusion e =
    (case fuseDrag_axis l axis_index Hfusion Kfusion e of
       Return e' \<Rightarrow> e'
     | Next e' Hfusion' Kfusion' \<Rightarrow>
         fuseDrag_loop fixCovarianceErrors indet l rest Hfusion' Kfusion'
           (fuseDrag_update fixCovarianceErrors indet Kfusion' Hfusion' axis_index e'))"

text \<open>
  The function: the guard on the ballistic coefficients, the locals, then the loop.
  No entry of \<^verbatim>\<open>Hfusion\<close> or \<^verbatim>\<open>Kfusion\<close> is assigned when the loop starts.
\<close>

definition fuseDrag :: "(Ekf \<Rightarrow> mat) \<Rightarrow> vec \<Rightarrow> Ekf \<Rightarrow> Ekf" where
  "fuseDrag fixCovarianceErrors indet e =
    (if bcoef_x (params e) < 1 \<or> bcoef_y (params e) < 1 then e
     else fuseDrag_loop fixCovarianceErrors indet (fuseDrag_locals e) [0, 1] [] (\<lambda>_. None) e)"

section \<open>The gain of the north and east velocity observations\<close>

text \<open>
  The fragment assigns three entries of \<^verbatim>\<open>K\<close> from the covariance \<^verbatim>\<open>P\<close> of the filter
  and the observation variance \<^verbatim>\<open>velObsVar\<close>; the other entries of \<^verbatim>\<open>K\<close> stay as
  they are.
\<close>

definition NE_velocity_gain :: "Ekf \<Rightarrow> real \<Rightarrow> mat \<Rightarrow> mat" where
  "NE_velocity_gain e velObsVar K =
    (let S0 = P e 0 1 ^ 2;
         S1 = P e 1 1 + velObsVar;
         S2 = P e 0 0 + velObsVar;
         S3 = 1 / (S0 - S1 * S2);
         S4 = - P e 0 1 * S3 * velObsVar;
         K1 = K(0 := (K 0)(0 := S3 * (- P e 0 0 * S1 + S0)));
         K2 = K1(0 := (K1 0)(1 := S4))
     in K2(1 := (K2 1)(1 := S3 * (- P e 1 1 * S2 + S0))))"

text \<open>
  The joint gain of the two observations, \<open>P (P + velObsVar I)\<^sup>-\<^sup>1\<close> on the 2 by 2 block,
  written with the inverse of a 2 by 2 matrix by its adjugate and determinant.
\<close>

definition det2 :: "mat \<Rightarrow> real" where
  "det2 A = A 0 0 * A 1 1 - A 0 1 * A 1 0"

definition inv2 :: "mat \<Rightarrow> mat" where
  "inv2 A = (\<lambda>r c. (if r = c then A (1 - r) (1 - c) else - A r c) / det2 A)"

definition mul2 :: "mat \<Rightarrow> mat \<Rightarrow> mat" where
  "mul2 A B = (\<lambda>r c. A r 0 * B 0 c + A r 1 * B 1 c)"

definition innovation_cov2 :: "Ekf \<Rightarrow> real \<Rightarrow> mat" where
  "innovation_cov2 e velObsVar = (\<lambda>r c. P e r c + (if r = c then velObsVar else 0))"

definition joint_gain2 :: "Ekf \<Rightarrow> real \<Rightarrow> mat" where
  "joint_gain2 e velObsVar = mul2 (P e) (inv2 (innovation_cov2 e velObsVar))"

section \<open>Notions used to state the properties\<close>

text \<open>
  The measurement and the prediction of one axis, as the two branches of the loop compute
  them: \<^verbatim>\<open>mea_acc\<close> (lines 88 and 185), \<^verbatim>\<open>predAccel\<close> (lines 177 to 179 and 272 to
  274) and their difference, the innovation (lines 180 and 275).
\<close>

definition drag_mea_acc :: "Ekf \<Rightarrow> nat \<Rightarrow> real" where
  "drag_mea_acc e axis_index =
    accelXY (drag_sample_delayed e) axis_index
      - delta_vel_bias (state e) axis_index / dt_ekf_avg e"

definition drag_predAccel :: "real \<Rightarrow> locals \<Rightarrow> nat \<Rightarrow> real" where
  "drag_predAccel BC_inv l axis_index =
    - BC_inv * (1/2) * rho l * sq (rel_wind_body l axis_index)
      * (if rel_wind_body l axis_index \<ge> 0 then 1 else -1)"

definition BC_inv_of :: "locals \<Rightarrow> nat \<Rightarrow> real" where
  "BC_inv_of l axis_index = (if axis_index = 0 then BC_inv_x l else BC_inv_y l)"

definition drag_innovation :: "locals \<Rightarrow> Ekf \<Rightarrow> nat \<Rightarrow> real" where
  "drag_innovation l e axis_index =
    drag_predAccel (BC_inv_of l axis_index) l axis_index - drag_mea_acc e axis_index"

text \<open>
  The part that the two branches of the loop have in common, from the write of the
  innovation variance on: the values that differ between the branches are its arguments.
\<close>

definition axis_tail ::
  "locals \<Rightarrow> nat \<Rightarrow> real \<Rightarrow> real \<Rightarrow> gain \<Rightarrow> Ekf \<Rightarrow> real \<Rightarrow> real \<Rightarrow> real list
     \<Rightarrow> real \<Rightarrow> real \<Rightarrow> flow" where
  "axis_tail l axis_index BC_inv Kacc Kfusion e mea_acc S Hf hk28 hk20 =
    (let e1 = e\<lparr>drag_innov_var := (drag_innov_var e)(axis_index := S)\<rparr>
     in if drag_innov_var e1 axis_index < R_ACC l then Return e1
        else
         (let HK32 = Kacc / drag_innov_var e1 axis_index;
            Hfusion = Hf;
            Kfusion1 = Kfusion(22 \<mapsto> - hk28 * HK32);
            Kfusion2 = Kfusion1(23 \<mapsto> - hk20 * HK32);
            drag_sign = (if rel_wind_body l axis_index \<ge> 0 then 1 else -1);
            predAccel = - BC_inv * (1/2) * rho l * sq (rel_wind_body l axis_index) * drag_sign;
            e2 = e1\<lparr>drag_innov := (drag_innov e1)(axis_index := predAccel - mea_acc)\<rparr>;
            e3 = e2\<lparr>drag_test_ratio := (drag_test_ratio e2)(axis_index :=
                   sq (drag_innov e2 axis_index) / (25 * drag_innov_var e2 axis_index))\<rparr>
          in Next e3 Hfusion Kfusion2))"

text \<open>
  The value of the flag \<^verbatim>\<open>healthy\<close> when the loop over the variances ends, and the
  states whose variance the correction would make negative.
\<close>

definition fuseDrag_healthy :: "vec \<Rightarrow> gain \<Rightarrow> real list \<Rightarrow> Ekf \<Rightarrow> bool" where
  "fuseDrag_healthy indet Kfusion Hfusion e =
    snd (healthy_loop (KHP_of indet Kfusion Hfusion (P e)) [0..<k_num_states] (P e, True))"

definition offending :: "mat \<Rightarrow> mat \<Rightarrow> nat \<Rightarrow> bool" where
  "offending KHP Pm i = (i < k_num_states \<and> Pm i i < KHP i i)"

text \<open>
  The filter after the two corrections of the accepted branch: \<^verbatim>\<open>P -= KHP\<close>, the repair
  of the covariance, and the state correction.
\<close>

definition fused ::
  "(Ekf \<Rightarrow> mat) \<Rightarrow> vec \<Rightarrow> gain \<Rightarrow> real list \<Rightarrow> nat \<Rightarrow> Ekf \<Rightarrow> Ekf" where
  "fused fixCovarianceErrors indet Kfusion Hfusion axis_index e =
    e\<lparr>P := fixCovarianceErrors
             (e\<lparr>P := (\<lambda>r c. P e r c - KHP_of indet Kfusion Hfusion (P e) r c)\<rparr>),
      state := fuse (read_gain indet Kfusion) (drag_innov e axis_index) (state e)\<rparr>"

text \<open>Symmetry and non-negative variances of a covariance, over the 24 states.\<close>

definition symmetric :: "mat \<Rightarrow> bool" where
  "symmetric M = (\<forall>r < k_num_states. \<forall>c < k_num_states. M r c = M c r)"

definition variances_nonneg :: "mat \<Rightarrow> bool" where
  "variances_nonneg M = (\<forall>i < k_num_states. 0 \<le> M i i)"

text \<open>
  The innovation variance that a pass computes: the value it writes to
  \<^verbatim>\<open>_drag_innov_var[axis_index]\<close>, read back from the filter the pass hands on.
\<close>

definition flow_Ekf :: "flow \<Rightarrow> Ekf" where
  "flow_Ekf f = (case f of Return e \<Rightarrow> e | Next e Hfusion Kfusion \<Rightarrow> e)"

definition innov_var_computed :: "locals \<Rightarrow> nat \<Rightarrow> gain \<Rightarrow> Ekf \<Rightarrow> real" where
  "innov_var_computed l axis_index Kfusion e =
    drag_innov_var (flow_Ekf (fuseDrag_axis l axis_index [] Kfusion e)) axis_index"

text \<open>
  The innovation variance of each axis as an expression of the filter alone: the
  right-hand sides of lines 131 and 225, with the terms of lines 88 to 127 and 185 to
  223 that they are built from.  It is written down here a second time, apart from the
  pass that stores it, so that what a pass publishes can be compared with it.
\<close>

definition innov_var_x :: "locals \<Rightarrow> Ekf \<Rightarrow> real" where
  "innov_var_x l e =
    (let axis_index = 0;
       mea_acc = accelXY (drag_sample_delayed e) axis_index
                   - delta_vel_bias (state e) axis_index / dt_ekf_avg e;
       airSpd = sqrt ((2 * \<bar>mea_acc\<bar>) / (BC_inv_x l * rho l));
       Kaccx = max (1/10) (rho l * BC_inv_x l * airSpd);
       HK0 = vn l - vwn l;
       HK1 = ve l - vwe l;
       HK2 = HK0 * q0 l + HK1 * q3 l - q2 l * vd l;
       HK3 = 2 * Kaccx;
       HK4 = HK0 * q1 l + HK1 * q2 l + q3 l * vd l;
       HK5 = HK0 * q2 l - HK1 * q1 l + q0 l * vd l;
       HK6 = - HK0 * q3 l + HK1 * q0 l + q1 l * vd l;
       HK7 = q0 l ^ 2 + q1 l ^ 2 - q2 l ^ 2 - q3 l ^ 2;
       HK8 = HK7 * Kaccx;
       HK9 = q0 l * q3 l + q1 l * q2 l;
       HK10 = HK3 * HK9;
       HK11 = q0 l * q2 l - q1 l * q3 l;
       HK12 = 2 * HK9;
       HK13 = 2 * HK11;
       HK14 = 2 * HK4;
       HK15 = 2 * HK2;
       HK16 = 2 * HK5;
       HK17 = 2 * HK6;
       HK18 = - HK12 * P e 0 23 + HK12 * P e 0 5 - HK13 * P e 0 6 + HK14 * P e 0 1 + HK15 * P e 0 0 - HK16 * P e 0 2 + HK17 * P e 0 3 - HK7 * P e 0 22 + HK7 * P e 0 4;
       HK19 = HK12 * P e 5 23;
       HK20 = - HK12 * P e 23 23 - HK13 * P e 6 23 + HK14 * P e 1 23 + HK15 * P e 0 23 - HK16 * P e 2 23 + HK17 * P e 3 23 + HK19 - HK7 * P e 22 23 + HK7 * P e 4 23;
       HK21 = Kaccx ^ 2;
       HK22 = HK12 * HK21;
       HK23 = HK12 * P e 5 5 - HK13 * P e 5 6 + HK14 * P e 1 5 + HK15 * P e 0 5 - HK16 * P e 2 5 + HK17 * P e 3 5 - HK19 + HK7 * P e 4 5 - HK7 * P e 5 22;
       HK24 = HK12 * P e 5 6 - HK12 * P e 6 23 - HK13 * P e 6 6 + HK14 * P e 1 6 + HK15 * P e 0 6 - HK16 * P e 2 6 + HK17 * P e 3 6 + HK7 * P e 4 6 - HK7 * P e 6 22;
       HK25 = HK7 * P e 4 22;
       HK26 = - HK12 * P e 4 23 + HK12 * P e 4 5 - HK13 * P e 4 6 + HK14 * P e 1 4 + HK15 * P e 0 4 - HK16 * P e 2 4 + HK17 * P e 3 4 - HK25 + HK7 * P e 4 4;
       HK27 = HK21 * HK7;
       HK28 = - HK12 * P e 22 23 + HK12 * P e 5 22 - HK13 * P e 6 22 + HK14 * P e 1 22 + HK15 * P e 0 22 - HK16 * P e 2 22 + HK17 * P e 3 22 + HK25 - HK7 * P e 22 22;
       HK29 = - HK12 * P e 1 23 + HK12 * P e 1 5 - HK13 * P e 1 6 + HK14 * P e 1 1 + HK15 * P e 0 1 - HK16 * P e 1 2 + HK17 * P e 1 3 - HK7 * P e 1 22 + HK7 * P e 1 4;
       HK30 = - HK12 * P e 2 23 + HK12 * P e 2 5 - HK13 * P e 2 6 + HK14 * P e 1 2 + HK15 * P e 0 2 - HK16 * P e 2 2 + HK17 * P e 2 3 - HK7 * P e 2 22 + HK7 * P e 2 4;
       HK31 = - HK12 * P e 3 23 + HK12 * P e 3 5 - HK13 * P e 3 6 + HK14 * P e 1 3 + HK15 * P e 0 3 - HK16 * P e 2 3 + HK17 * P e 3 3 - HK7 * P e 3 22 + HK7 * P e 3 4
     in - HK13 * HK21 * HK24 + HK14 * HK21 * HK29 + HK15 * HK18 * HK21 - HK16 * HK21 * HK30 + HK17 * HK21 * HK31 - HK20 * HK22 + HK22 * HK23 + HK26 * HK27 - HK27 * HK28 + R_ACC l)"

definition innov_var_y :: "locals \<Rightarrow> Ekf \<Rightarrow> real" where
  "innov_var_y l e =
    (let axis_index = 1;
       mea_acc = accelXY (drag_sample_delayed e) axis_index
                   - delta_vel_bias (state e) axis_index / dt_ekf_avg e;
       airSpd = sqrt ((2 * \<bar>mea_acc\<bar>) / (BC_inv_y l * rho l));
       Kaccy = max (1/10) (rho l * BC_inv_y l * airSpd);
       HK0 = ve l - vwe l;
       HK1 = vn l - vwn l;
       HK2 = HK0 * q0 l - HK1 * q3 l + q1 l * vd l;
       HK3 = 2 * Kaccy;
       HK4 = - HK0 * q1 l + HK1 * q2 l + q0 l * vd l;
       HK5 = HK0 * q2 l + HK1 * q1 l + q3 l * vd l;
       HK6 = HK0 * q3 l + HK1 * q0 l - q2 l * vd l;
       HK7 = q0 l * q3 l - q1 l * q2 l;
       HK8 = HK3 * HK7;
       HK9 = q0 l ^ 2 - q1 l ^ 2 + q2 l ^ 2 - q3 l ^ 2;
       HK10 = HK9 * Kaccy;
       HK11 = q0 l * q1 l + q2 l * q3 l;
       HK12 = 2 * HK11;
       HK13 = 2 * HK7;
       HK14 = 2 * HK5;
       HK15 = 2 * HK2;
       HK16 = 2 * HK4;
       HK17 = 2 * HK6;
       HK18 = HK12 * P e 0 6 + HK13 * P e 0 22 - HK13 * P e 0 4 + HK14 * P e 0 2 + HK15 * P e 0 0 + HK16 * P e 0 1 - HK17 * P e 0 3 - HK9 * P e 0 23 + HK9 * P e 0 5;
       HK19 = Kaccy ^ 2;
       HK20 = HK12 * P e 6 6 - HK13 * P e 4 6 + HK13 * P e 6 22 + HK14 * P e 2 6 + HK15 * P e 0 6 + HK16 * P e 1 6 - HK17 * P e 3 6 + HK9 * P e 5 6 - HK9 * P e 6 23;
       HK21 = HK13 * P e 4 22;
       HK22 = HK12 * P e 6 22 + HK13 * P e 22 22 + HK14 * P e 2 22 + HK15 * P e 0 22 + HK16 * P e 1 22 - HK17 * P e 3 22 - HK21 - HK9 * P e 22 23 + HK9 * P e 5 22;
       HK23 = HK13 * HK19;
       HK24 = HK12 * P e 4 6 - HK13 * P e 4 4 + HK14 * P e 2 4 + HK15 * P e 0 4 + HK16 * P e 1 4 - HK17 * P e 3 4 + HK21 - HK9 * P e 4 23 + HK9 * P e 4 5;
       HK25 = HK9 * P e 5 23;
       HK26 = HK12 * P e 5 6 - HK13 * P e 4 5 + HK13 * P e 5 22 + HK14 * P e 2 5 + HK15 * P e 0 5 + HK16 * P e 1 5 - HK17 * P e 3 5 - HK25 + HK9 * P e 5 5;
       HK27 = HK19 * HK9;
       HK28 = HK12 * P e 6 23 + HK13 * P e 22 23 - HK13 * P e 4 23 + HK14 * P e 2 23 + HK15 * P e 0 23 + HK16 * P e 1 23 - HK17 * P e 3 23 + HK25 - HK9 * P e 23 23;
       HK29 = HK12 * P e 2 6 + HK13 * P e 2 22 - HK13 * P e 2 4 + HK14 * P e 2 2 + HK15 * P e 0 2 + HK16 * P e 1 2 - HK17 * P e 2 3 - HK9 * P e 2 23 + HK9 * P e 2 5;
       HK30 = HK12 * P e 1 6 + HK13 * P e 1 22 - HK13 * P e 1 4 + HK14 * P e 1 2 + HK15 * P e 0 1 + HK16 * P e 1 1 - HK17 * P e 1 3 - HK9 * P e 1 23 + HK9 * P e 1 5;
       HK31 = HK12 * P e 3 6 + HK13 * P e 3 22 - HK13 * P e 3 4 + HK14 * P e 2 3 + HK15 * P e 0 3 + HK16 * P e 1 3 - HK17 * P e 3 3 - HK9 * P e 3 23 + HK9 * P e 3 5
     in HK12 * HK19 * HK20 + HK14 * HK19 * HK29 + HK15 * HK18 * HK19 + HK16 * HK19 * HK30 - HK17 * HK19 * HK31 + HK22 * HK23 - HK23 * HK24 + HK26 * HK27 - HK27 * HK28 + R_ACC l)"

definition innov_var :: "locals \<Rightarrow> Ekf \<Rightarrow> nat \<Rightarrow> real" where
  "innov_var l e axis_index = (if axis_index = 0 then innov_var_x l e else innov_var_y l e)"

text \<open>The zero-wind hover scenario of the spec (section 8, item 7).\<close>

definition hover :: "Ekf \<Rightarrow> bool" where
  "hover e =
    (quat_nominal (state e) 0 = 1 \<and> quat_nominal (state e) 1 = 0
     \<and> quat_nominal (state e) 2 = 0 \<and> quat_nominal (state e) 3 = 0
     \<and> vel (state e) 0 = 0 \<and> vel (state e) 1 = 0 \<and> vel (state e) 2 = 0
     \<and> wind_vel (state e) 0 = 0 \<and> wind_vel (state e) 1 = 0
     \<and> accelXY (drag_sample_delayed e) 0 = 0 \<and> accelXY (drag_sample_delayed e) 1 = 0
     \<and> delta_vel_bias (state e) 0 = 0 \<and> delta_vel_bias (state e) 1 = 0)"

section \<open>Test inputs\<close>

text \<open>
  A filter with the identity orientation, no wind, a zero drag sample and zero biases,
  ballistic coefficients 1, noise 1/2 and air density 1.  The horizontal velocity and the
  covariance are left open; the published values are those of an earlier call.
\<close>

definition zero_vec :: vec where
  "zero_vec = (\<lambda>_. 0)"

definition state_test :: "real \<Rightarrow> real \<Rightarrow> stateSample" where
  "state_test vx vy =
    \<lparr> quat_nominal = (\<lambda>i. if i = 0 then 1 else 0), vel = Vector3f vx vy 0, pos = zero_vec,
      delta_ang_bias = zero_vec, delta_vel_bias = zero_vec, mag_I = zero_vec,
      mag_B = zero_vec, wind_vel = zero_vec \<rparr>"

definition ekf_test :: "real \<Rightarrow> real \<Rightarrow> mat \<Rightarrow> Ekf" where
  "ekf_test vx vy Pm =
    \<lparr> state = state_test vx vy, P = Pm,
      params = \<lparr> drag_noise = 1/2, bcoef_x = 1, bcoef_y = 1 \<rparr>,
      air_density = 1, drag_sample_delayed = \<lparr> accelXY = zero_vec \<rparr>,
      dt_ekf_avg = 1, drag_innov = (\<lambda>_. 7), drag_innov_var = zero_vec,
      drag_test_ratio = (\<lambda>_. 9) \<rparr>"

text \<open>
  Unit variances, with a covariance \<open>x\<close> between the north velocity (state 4) and the
  north wind (state 22).
\<close>

definition P_cross :: "real \<Rightarrow> mat" where
  "P_cross x = (\<lambda>r c. if r = c \<and> r < 24 then 1
                       else if (r = 4 \<and> c = 22) \<or> (r = 22 \<and> c = 4) then x else 0)"

text \<open>The filter with a ballistic coefficient below 1.\<close>

definition ekf_disabled :: Ekf where
  "ekf_disabled = (ekf_test 2 0 (P_cross 0))\<lparr>params := \<lparr>drag_noise = 1/2, bcoef_x = 1/2, bcoef_y = 3\<rparr>\<rparr>"

text \<open>Contents of the memory of \<^verbatim>\<open>Kfusion\<close>: all zero, or 1 in entry 4.\<close>

definition indet_4 :: vec where
  "indet_4 = (\<lambda>i. if i = 4 then 1 else 0)"

text \<open>Moving north at 2 m/s: the filter, and what the pass of the X axis hands on.\<close>

definition ekf_north :: Ekf where
  "ekf_north = ekf_test 2 0 (P_cross 0)"

definition ekf_north_x :: Ekf where
  "ekf_north_x = ekf_north\<lparr>drag_innov_var := (drag_innov_var ekf_north)(0 := 43/100),
                   drag_innov := (drag_innov ekf_north)(0 := - 2),
                   drag_test_ratio := (drag_test_ratio ekf_north)(0 := 16/43)\<rparr>"

definition H_north :: "real list" where
  "H_north = [- (2/5), 0, 0, 0, - (1/10), 0, 0, 1/10, 0]"

definition K_north :: gain where
  "K_north = [22 \<mapsto> 10/43, 23 \<mapsto> 0]"

text \<open>Moving north, with the covariance -10 between north velocity and north wind.\<close>

definition ekf_neg :: Ekf where
  "ekf_neg = ekf_test 2 0 (P_cross (- 10))"

definition ekf_neg_x :: Ekf where
  "ekf_neg_x = ekf_neg\<lparr>drag_innov_var := (drag_innov_var ekf_neg)(0 := 63/100),
                 drag_innov := (drag_innov ekf_neg)(0 := - 2),
                 drag_test_ratio := (drag_test_ratio ekf_neg)(0 := 16/63)\<rparr>"

definition K_neg :: gain where
  "K_neg = [22 \<mapsto> 110/63, 23 \<mapsto> 0]"

text \<open>
  Moving east at 2 m/s, with the covariance 10 between north velocity and north wind:
  the filter, what the pass of the X axis leaves, and what a pass of the Y axis on that
  would hand on.
\<close>

definition ekf_east :: Ekf where
  "ekf_east = ekf_test 0 2 (P_cross 10)"

definition ekf_east_x :: Ekf where
  "ekf_east_x = ekf_east\<lparr>drag_innov_var := (drag_innov_var ekf_east)(0 := 23/100)\<rparr>"

definition ekf_east_y :: Ekf where
  "ekf_east_y = ekf_east_x\<lparr>drag_innov_var := (drag_innov_var ekf_east_x)(1 := 43/100),
                  drag_innov := (drag_innov ekf_east_x)(1 := - 2),
                  drag_test_ratio := (drag_test_ratio ekf_east_x)(1 := 16/43)\<rparr>"

definition H_east :: "real list" where
  "H_east = [- (2/5), 0, 0, 0, 0, - (1/10), 0, 0, 1/10]"

definition K_east :: gain where
  "K_east = [22 \<mapsto> 10/43, 23 \<mapsto> 0]"

text \<open>At rest (the hover scenario), with unit variances.\<close>

definition ekf_rest :: Ekf where
  "ekf_rest = ekf_test 0 0 (P_cross 0)"

text \<open>A filter whose covariance has 2 on the diagonal and 1 elsewhere.\<close>

definition ekf_ne :: Ekf where
  "ekf_ne = (ekf_test 0 0 (\<lambda>r c. if r = c then 2 else 1))"

text \<open>What the pass of the X axis hands on at rest, and the filter after its update.\<close>

definition ekf_rest_x :: Ekf where
  "ekf_rest_x = ekf_rest\<lparr>drag_innov_var := (drag_innov_var ekf_rest)(0 := 27/100),
                  drag_innov := (drag_innov ekf_rest)(0 := 0),
                  drag_test_ratio := (drag_test_ratio ekf_rest)(0 := 0)\<rparr>"

definition H_rest :: "real list" where
  "H_rest = [0, 0, 0, 0, - (1/10), 0, 0, 1/10, 0]"

definition K_rest :: gain where
  "K_rest = [22 \<mapsto> 10/27, 23 \<mapsto> 0]"

definition ekf_rest_fused :: Ekf where
  "ekf_rest_fused = fused fixCovarianceErrors_spec zero_vec K_rest H_rest 0 ekf_rest_x"

text \<open>What the pass of the Y axis hands on at rest, after the update of the X axis.\<close>

definition ekf_rest_y :: Ekf where
  "ekf_rest_y = ekf_rest_fused\<lparr>drag_innov_var := (drag_innov_var ekf_rest_fused)(1 := 27/100),
                  drag_innov := (drag_innov ekf_rest_fused)(1 := 0),
                  drag_test_ratio := (drag_test_ratio ekf_rest_fused)(1 := 0)\<rparr>"

definition H_rest_y :: "real list" where
  "H_rest_y = [0, 0, 0, 0, 0, - (1/10), 0, 0, 1/10]"

text \<open>
  At rest, with the covariance -10 between north velocity and north wind: the filter, and
  what the pass of the X axis hands on.
\<close>

definition ekf_rest_neg :: Ekf where
  "ekf_rest_neg = ekf_test 0 0 (P_cross (- 10))"

definition ekf_rest_neg_x :: Ekf where
  "ekf_rest_neg_x = ekf_rest_neg\<lparr>drag_innov_var := (drag_innov_var ekf_rest_neg)(0 := 47/100),
                      drag_innov := (drag_innov ekf_rest_neg)(0 := 0),
                      drag_test_ratio := (drag_test_ratio ekf_rest_neg)(0 := 0)\<rparr>"

definition K_rest_neg :: gain where
  "K_rest_neg = [22 \<mapsto> 110/47, 23 \<mapsto> 0]"

section \<open>Properties\<close>

subsection \<open>The two branches of the loop\<close>

lemma axis_x_tail:
  "\<exists>Kacc S Hf hk28 hk20.
     fuseDrag_axis_x l Kfusion e
       = axis_tail l 0 (BC_inv_x l) Kacc Kfusion e (drag_mea_acc e 0) S Hf hk28 hk20
     \<and> length Hf = 9"
  unfolding fuseDrag_axis_x_def Let_def axis_tail_def drag_mea_acc_def
  apply (intro exI conjI)
   apply (rule refl)
  apply (simp only: list.size length_Cons)
  done

lemma axis_y_tail:
  "\<exists>Kacc S Hf hk28 hk20.
     fuseDrag_axis_y l Kfusion e
       = axis_tail l 1 (BC_inv_y l) Kacc Kfusion e (drag_mea_acc e 1) S Hf hk28 hk20
     \<and> length Hf = 9"
  unfolding fuseDrag_axis_y_def Let_def axis_tail_def drag_mea_acc_def
  apply (intro exI conjI)
   apply (rule refl)
  apply (simp only: list.size length_Cons)
  done

lemma fuseDrag_axis_tail:
  assumes "axis_index < 2"
  shows "\<exists>Kacc S Hf hk28 hk20.
     fuseDrag_axis l axis_index Hfusion Kfusion e
       = axis_tail l axis_index (BC_inv_of l axis_index) Kacc Kfusion e
           (drag_mea_acc e axis_index) S Hf hk28 hk20
     \<and> length Hf = 9"
proof -
  from assms have "axis_index = 0 \<or> axis_index = 1" by auto
  then show ?thesis
  proof
    assume a: "axis_index = 0"
    show ?thesis
      using axis_x_tail [of l Kfusion e] by (simp add: a fuseDrag_axis_def BC_inv_of_def)
  next
    assume a: "axis_index = 1"
    show ?thesis
      using axis_y_tail [of l Kfusion e] by (simp add: a fuseDrag_axis_def BC_inv_of_def)
  qed
qed

lemma axis_tail_Return:
  assumes "axis_tail l a BC_inv Kacc Kfusion e mea_acc S Hf hk28 hk20 = Return e1"
  shows "e1 = e\<lparr>drag_innov_var := (drag_innov_var e)(a := S)\<rparr> \<and> S < R_ACC l"
  using assms by (simp add: axis_tail_def Let_def split: if_splits)

lemma axis_tail_Next:
  assumes "axis_tail l a BC_inv Kacc Kfusion e mea_acc S Hf hk28 hk20 = Next e3 Hfusion' Kfusion'"
  shows "e3 = e\<lparr>drag_innov_var := (drag_innov_var e)(a := S),
                 drag_innov := (drag_innov e)(a := drag_predAccel BC_inv l a - mea_acc),
                 drag_test_ratio := (drag_test_ratio e)(a :=
                    sq (drag_predAccel BC_inv l a - mea_acc) / (25 * S))\<rparr>
       \<and> \<not> S < R_ACC l \<and> Hfusion' = Hf
       \<and> Kfusion' = Kfusion(22 \<mapsto> - hk28 * (Kacc / S), 23 \<mapsto> - hk20 * (Kacc / S))"
  using assms by (auto simp add: axis_tail_def Let_def drag_predAccel_def split: if_splits)

text \<open>What a pass that leaves the function has done.\<close>

lemma fuseDrag_axis_Return:
  assumes "axis_index < 2" and "fuseDrag_axis l axis_index Hfusion Kfusion e = Return e1"
  shows "e1 = e\<lparr>drag_innov_var := (drag_innov_var e)(axis_index := drag_innov_var e1 axis_index)\<rparr>"
    and "drag_innov_var e1 axis_index < R_ACC l"
proof -
  obtain Kacc S Hf hk28 hk20 where
    t: "axis_tail l axis_index (BC_inv_of l axis_index) Kacc Kfusion e
          (drag_mea_acc e axis_index) S Hf hk28 hk20 = Return e1"
    using fuseDrag_axis_tail [OF assms(1), of l Hfusion Kfusion e] assms(2) by auto
  from axis_tail_Return [OF t]
  have e1: "e1 = e\<lparr>drag_innov_var := (drag_innov_var e)(axis_index := S)\<rparr>" and S: "S < R_ACC l"
    by simp_all
  have v: "drag_innov_var e1 axis_index = S" by (simp add: e1)
  show "e1 = e\<lparr>drag_innov_var := (drag_innov_var e)(axis_index := drag_innov_var e1 axis_index)\<rparr>"
    unfolding v by (rule e1)
  show "drag_innov_var e1 axis_index < R_ACC l" unfolding v by (rule S)
qed

text \<open>What a pass that goes on to the consistency check has done.\<close>

lemma fuseDrag_axis_Next:
  assumes "axis_index < 2"
    and "fuseDrag_axis l axis_index Hfusion Kfusion e = Next e3 Hfusion' Kfusion'"
  shows "e3 = e\<lparr>drag_innov_var := (drag_innov_var e)(axis_index := drag_innov_var e3 axis_index),
                 drag_innov := (drag_innov e)(axis_index := drag_innovation l e axis_index),
                 drag_test_ratio := (drag_test_ratio e)(axis_index :=
                    sq (drag_innovation l e axis_index) / (25 * drag_innov_var e3 axis_index))\<rparr>"
    and "\<not> drag_innov_var e3 axis_index < R_ACC l"
    and "length Hfusion' = 9"
    and "\<exists>k22 k23. Kfusion' = Kfusion(22 \<mapsto> k22, 23 \<mapsto> k23)"
proof -
  obtain Kacc S Hf hk28 hk20 where
    t: "axis_tail l axis_index (BC_inv_of l axis_index) Kacc Kfusion e
          (drag_mea_acc e axis_index) S Hf hk28 hk20 = Next e3 Hfusion' Kfusion'"
    and len: "length Hf = 9"
    using fuseDrag_axis_tail [OF assms(1), of l Hfusion Kfusion e] assms(2) by auto
  note n = axis_tail_Next [OF t]
  from n have e3: "e3 = e\<lparr>drag_innov_var := (drag_innov_var e)(axis_index := S),
                 drag_innov := (drag_innov e)(axis_index := drag_innovation l e axis_index),
                 drag_test_ratio := (drag_test_ratio e)(axis_index :=
                    sq (drag_innovation l e axis_index) / (25 * S))\<rparr>"
    by (simp add: drag_innovation_def)
  have v: "drag_innov_var e3 axis_index = S" by (simp add: e3)
  show "e3 = e\<lparr>drag_innov_var := (drag_innov_var e)(axis_index := drag_innov_var e3 axis_index),
                 drag_innov := (drag_innov e)(axis_index := drag_innovation l e axis_index),
                 drag_test_ratio := (drag_test_ratio e)(axis_index :=
                    sq (drag_innovation l e axis_index) / (25 * drag_innov_var e3 axis_index))\<rparr>"
    unfolding v by (rule e3)
  show "\<not> drag_innov_var e3 axis_index < R_ACC l" unfolding v using n by simp
  show "length Hfusion' = 9" using n len by simp
  show "\<exists>k22 k23. Kfusion' = Kfusion(22 \<mapsto> k22, 23 \<mapsto> k23)" using n by blast
qed

subsection \<open>The loop over the variances and the update\<close>

lemma uncorrelate_zero:
  "uncorrelateCovarianceSetVariance i 0 M = (\<lambda>r c. if r = i \<or> c = i then 0 else M r c)"
  by (auto simp: uncorrelateCovarianceSetVariance_def fun_eq_iff)

lemma healthy_loop_result:
  assumes "distinct idx"
  shows "healthy_loop KHP idx (Pm, h)
       = ((\<lambda>r c. if (r \<in> set idx \<and> Pm r r < KHP r r) \<or> (c \<in> set idx \<and> Pm c c < KHP c c)
                  then 0 else Pm r c),
          h \<and> (\<forall>i \<in> set idx. \<not> Pm i i < KHP i i))"
  using assms
proof (induction idx arbitrary: Pm h)
  case Nil
  show ?case by simp
next
  case (Cons i rest)
  from Cons.prems have d: "distinct rest" and ni: "i \<notin> set rest" by simp_all
  show ?case
  proof (cases "Pm i i < KHP i i")
    case True
    let ?Q = "uncorrelateCovarianceSetVariance i 0 Pm"
    have diag: "\<And>x. x \<in> set rest \<Longrightarrow> ?Q x x = Pm x x"
      using ni by (auto simp: uncorrelate_zero)
    have "healthy_loop KHP (i # rest) (Pm, h) = healthy_loop KHP rest (?Q, False)"
      using True by simp
    also have "\<dots> = ((\<lambda>r c. if (r \<in> set rest \<and> ?Q r r < KHP r r)
                                \<or> (c \<in> set rest \<and> ?Q c c < KHP c c) then 0 else ?Q r c),
                      False \<and> (\<forall>i \<in> set rest. \<not> ?Q i i < KHP i i))"
      by (rule Cons.IH [OF d])
    also have "\<dots> = ((\<lambda>r c. if (r \<in> set (i # rest) \<and> Pm r r < KHP r r)
                                \<or> (c \<in> set (i # rest) \<and> Pm c c < KHP c c) then 0 else Pm r c),
                      h \<and> (\<forall>j \<in> set (i # rest). \<not> Pm j j < KHP j j))"
    proof -
      have m: "(\<lambda>r c. if (r \<in> set rest \<and> ?Q r r < KHP r r)
                        \<or> (c \<in> set rest \<and> ?Q c c < KHP c c) then 0 else ?Q r c)
             = (\<lambda>r c. if (r \<in> set (i # rest) \<and> Pm r r < KHP r r)
                        \<or> (c \<in> set (i # rest) \<and> Pm c c < KHP c c) then 0 else Pm r c)"
      proof (intro ext)
        fix r c
        show "(if (r \<in> set rest \<and> ?Q r r < KHP r r)
                        \<or> (c \<in> set rest \<and> ?Q c c < KHP c c) then 0 else ?Q r c)
             = (if (r \<in> set (i # rest) \<and> Pm r r < KHP r r)
                        \<or> (c \<in> set (i # rest) \<and> Pm c c < KHP c c) then 0 else Pm r c)"
          using True diag [of r] diag [of c] by (auto simp: uncorrelate_zero)
      qed
      show ?thesis unfolding m using True by simp
    qed
    finally show ?thesis .
  next
    case False
    have m: "(\<lambda>r c. if (r \<in> set rest \<and> Pm r r < KHP r r)
                        \<or> (c \<in> set rest \<and> Pm c c < KHP c c) then 0 else Pm r c)
             = (\<lambda>r c. if (r \<in> set (i # rest) \<and> Pm r r < KHP r r)
                        \<or> (c \<in> set (i # rest) \<and> Pm c c < KHP c c) then 0 else Pm r c)"
      using False by (auto simp: fun_eq_iff)
    have "healthy_loop KHP (i # rest) (Pm, h) = healthy_loop KHP rest (Pm, h)"
      using False by simp
    then show ?thesis
      unfolding Cons.IH [OF d, of Pm h] m using False by simp
  qed
qed

lemma healthy_loop_states:
  "healthy_loop KHP [0..<k_num_states] (Pm, True)
     = ((\<lambda>r c. if offending KHP Pm r \<or> offending KHP Pm c then 0 else Pm r c),
        \<forall>i < k_num_states. \<not> Pm i i < KHP i i)"
  by (simp add: healthy_loop_result offending_def Ball_def)

lemma fuseDrag_healthy_iff:
  "fuseDrag_healthy indet Kfusion Hfusion e
     \<longleftrightarrow> (\<forall>i < k_num_states. \<not> P e i i < KHP_of indet Kfusion Hfusion (P e) i i)"
  by (simp add: fuseDrag_healthy_def healthy_loop_states)

lemma not_offending_healthy:
  assumes "fuseDrag_healthy indet Kfusion Hfusion e"
  shows "\<not> offending (KHP_of indet Kfusion Hfusion (P e)) (P e) i"
  using assms by (simp add: fuseDrag_healthy_iff offending_def)

lemma fuseDrag_update_rejected:
  assumes "\<not> drag_test_ratio e axis_index \<le> 1"
  shows "fuseDrag_update fixCovarianceErrors indet Kfusion Hfusion axis_index e = e"
  using assms by (simp add: fuseDrag_update_def)

lemma fuseDrag_update_unhealthy:
  assumes "drag_test_ratio e axis_index \<le> 1"
    and "\<not> fuseDrag_healthy indet Kfusion Hfusion e"
  shows "fuseDrag_update fixCovarianceErrors indet Kfusion Hfusion axis_index e
       = e\<lparr>P := (\<lambda>r c. if offending (KHP_of indet Kfusion Hfusion (P e)) (P e) r
                          \<or> offending (KHP_of indet Kfusion Hfusion (P e)) (P e) c
                       then 0 else P e r c)\<rparr>"
proof -
  have h: "(\<forall>i < k_num_states. \<not> P e i i < KHP_of indet Kfusion Hfusion (P e) i i) = False"
    using assms(2) by (simp add: fuseDrag_healthy_iff)
  show ?thesis
    unfolding fuseDrag_update_def Let_def healthy_loop_states snd_conv fst_conv h
    using assms(1) by simp
qed

lemma fuseDrag_update_healthy:
  assumes "drag_test_ratio e axis_index \<le> 1"
    and "fuseDrag_healthy indet Kfusion Hfusion e"
  shows "fuseDrag_update fixCovarianceErrors indet Kfusion Hfusion axis_index e
       = fused fixCovarianceErrors indet Kfusion Hfusion axis_index e"
proof -
  have h: "(\<forall>i < k_num_states. \<not> P e i i < KHP_of indet Kfusion Hfusion (P e) i i) = True"
    using assms(2) by (simp add: fuseDrag_healthy_iff)
  have same: "(\<lambda>r c. if offending (KHP_of indet Kfusion Hfusion (P e)) (P e) r
                          \<or> offending (KHP_of indet Kfusion Hfusion (P e)) (P e) c
                       then 0 else P e r c) = P e"
    using not_offending_healthy [OF assms(2)] by (simp add: fun_eq_iff)
  show ?thesis
    unfolding fuseDrag_update_def Let_def healthy_loop_states fused_def snd_conv fst_conv h
    using assms(1) by (simp add: same)
qed

lemma fuse_zero_innovation: "fuse K 0 s = s"
  by (cases s) (simp add: fuse_def cong: if_cong)

text \<open>The update leaves everything but the covariance and the state as it is.\<close>

lemma fuseDrag_update_published:
  "drag_innov (fuseDrag_update fc indet Kfusion Hfusion a e) = drag_innov e
   \<and> drag_innov_var (fuseDrag_update fc indet Kfusion Hfusion a e) = drag_innov_var e
   \<and> drag_test_ratio (fuseDrag_update fc indet Kfusion Hfusion a e) = drag_test_ratio e
   \<and> params (fuseDrag_update fc indet Kfusion Hfusion a e) = params e
   \<and> drag_sample_delayed (fuseDrag_update fc indet Kfusion Hfusion a e) = drag_sample_delayed e
   \<and> dt_ekf_avg (fuseDrag_update fc indet Kfusion Hfusion a e) = dt_ekf_avg e"
proof (cases "drag_test_ratio e a \<le> 1")
  case False
  then show ?thesis by (simp add: fuseDrag_update_rejected)
next
  case True
  show ?thesis
  proof (cases "fuseDrag_healthy indet Kfusion Hfusion e")
    case True
    with \<open>drag_test_ratio e a \<le> 1\<close> show ?thesis
      by (simp add: fuseDrag_update_healthy fused_def)
  next
    case False
    with \<open>drag_test_ratio e a \<le> 1\<close> show ?thesis
      by (simp add: fuseDrag_update_unhealthy)
  qed
qed

lemma fuseDrag_update_zero_innovation:
  assumes "drag_innov e a = 0"
  shows "state (fuseDrag_update fc indet Kfusion Hfusion a e) = state e"
proof (cases "drag_test_ratio e a \<le> 1")
  case False
  then show ?thesis by (simp add: fuseDrag_update_rejected)
next
  case True
  show ?thesis
  proof (cases "fuseDrag_healthy indet Kfusion Hfusion e")
    case True
    with \<open>drag_test_ratio e a \<le> 1\<close> show ?thesis
      by (simp add: fuseDrag_update_healthy fused_def assms fuse_zero_innovation)
  next
    case False
    with \<open>drag_test_ratio e a \<le> 1\<close> show ?thesis
      by (simp add: fuseDrag_update_unhealthy)
  qed
qed

subsection \<open>When a pass leaves the function\<close>

lemma fuseDrag_axis_independent_of_Hfusion:
  assumes "axis_index < 2"
  shows "fuseDrag_axis l axis_index Hfusion Kfusion e = fuseDrag_axis l axis_index [] Kfusion e"
  using assms by (auto simp: fuseDrag_axis_def)

lemma innov_var_computed_Return:
  assumes "axis_index < 2" and "fuseDrag_axis l axis_index Hfusion Kfusion e = Return e1"
  shows "innov_var_computed l axis_index Kfusion e = drag_innov_var e1 axis_index"
  using assms fuseDrag_axis_independent_of_Hfusion [OF assms(1), of l Hfusion Kfusion e]
  by (simp add: innov_var_computed_def flow_Ekf_def)

lemma innov_var_computed_Next:
  assumes "axis_index < 2" and "fuseDrag_axis l axis_index Hfusion Kfusion e = Next e3 H' K'"
  shows "innov_var_computed l axis_index Kfusion e = drag_innov_var e3 axis_index"
  using assms fuseDrag_axis_independent_of_Hfusion [OF assms(1), of l Hfusion Kfusion e]
  by (simp add: innov_var_computed_def flow_Ekf_def)

text \<open>A pass leaves the function exactly when the variance it computes is below the noise.\<close>

lemma fuseDrag_axis_aborts:
  assumes "axis_index < 2" and "innov_var_computed l axis_index Kfusion e < R_ACC l"
  shows "fuseDrag_axis l axis_index Hfusion Kfusion e
       = Return (e\<lparr>drag_innov_var :=
                    (drag_innov_var e)(axis_index := innov_var_computed l axis_index Kfusion e)\<rparr>)"
proof (cases "fuseDrag_axis l axis_index Hfusion Kfusion e")
  case (Return e1)
  from fuseDrag_axis_Return(1) [OF assms(1) Return] innov_var_computed_Return [OF assms(1) Return]
  show ?thesis by (simp add: Return)
next
  case (Next e3 H' K')
  from fuseDrag_axis_Next(2) [OF assms(1) Next] innov_var_computed_Next [OF assms(1) Next] assms(2)
  show ?thesis by simp
qed

lemma fuseDrag_axis_goes_on:
  assumes "axis_index < 2" and "\<not> innov_var_computed l axis_index Kfusion e < R_ACC l"
  shows "\<exists>Hfusion' k22 k23.
      fuseDrag_axis l axis_index Hfusion Kfusion e
       = Next (e\<lparr>drag_innov_var :=
                    (drag_innov_var e)(axis_index := innov_var_computed l axis_index Kfusion e),
                 drag_innov := (drag_innov e)(axis_index := drag_innovation l e axis_index),
                 drag_test_ratio := (drag_test_ratio e)(axis_index :=
                    sq (drag_innovation l e axis_index)
                      / (25 * innov_var_computed l axis_index Kfusion e))\<rparr>)
              Hfusion' (Kfusion(22 \<mapsto> k22, 23 \<mapsto> k23))
      \<and> length Hfusion' = 9"
proof (cases "fuseDrag_axis l axis_index Hfusion Kfusion e")
  case (Return e1)
  from fuseDrag_axis_Return(2) [OF assms(1) Return] innov_var_computed_Return [OF assms(1) Return]
    assms(2)
  show ?thesis by simp
next
  case (Next e3 H' K')
  note n = fuseDrag_axis_Next [OF assms(1) Next]
  note v = innov_var_computed_Next [OF assms(1) Next]
  from n(4) obtain k22 k23 where K': "K' = Kfusion(22 \<mapsto> k22, 23 \<mapsto> k23)" by blast
  show ?thesis
    unfolding Next v using n(1) n(3) K' by blast
qed

lemma axis_x_variance:
  "\<exists>Kacc Hf hk28 hk20.
     fuseDrag_axis_x l Kfusion e
       = axis_tail l 0 (BC_inv_x l) Kacc Kfusion e (drag_mea_acc e 0) (innov_var_x l e) Hf hk28 hk20"
  unfolding fuseDrag_axis_x_def innov_var_x_def Let_def axis_tail_def drag_mea_acc_def
  by (intro exI) (rule refl)

lemma axis_y_variance:
  "\<exists>Kacc Hf hk28 hk20.
     fuseDrag_axis_y l Kfusion e
       = axis_tail l 1 (BC_inv_y l) Kacc Kfusion e (drag_mea_acc e 1) (innov_var_y l e) Hf hk28 hk20"
  unfolding fuseDrag_axis_y_def innov_var_y_def Let_def axis_tail_def drag_mea_acc_def
  by (intro exI) (rule refl)

lemma axis_tail_variance:
  "drag_innov_var (flow_Ekf (axis_tail l a BC_inv Kacc Kfusion e mea_acc S Hf hk28 hk20)) a = S"
  by (simp add: axis_tail_def Let_def flow_Ekf_def)

text \<open>The variance a pass stores is the expression of lines 131 and 225.\<close>

lemma innov_var_computed_eq:
  assumes "axis_index < 2"
  shows "innov_var_computed l axis_index Kfusion e = innov_var l e axis_index"
proof -
  from assms have "axis_index = 0 \<or> axis_index = 1" by auto
  then show ?thesis
  proof
    assume a: "axis_index = 0"
    from axis_x_variance [of l Kfusion e] obtain Kacc Hf hk28 hk20 where
      t: "fuseDrag_axis_x l Kfusion e
       = axis_tail l 0 (BC_inv_x l) Kacc Kfusion e (drag_mea_acc e 0) (innov_var_x l e) Hf hk28 hk20"
      by blast
    have f: "fuseDrag_axis l 0 [] Kfusion e = fuseDrag_axis_x l Kfusion e"
      by (simp add: fuseDrag_axis_def)
    have v: "innov_var l e 0 = innov_var_x l e" by (simp add: innov_var_def)
    show ?thesis
      unfolding a innov_var_computed_def f t v by (rule axis_tail_variance)
  next
    assume a: "axis_index = 1"
    from axis_y_variance [of l Kfusion e] obtain Kacc Hf hk28 hk20 where
      t: "fuseDrag_axis_y l Kfusion e
       = axis_tail l 1 (BC_inv_y l) Kacc Kfusion e (drag_mea_acc e 1) (innov_var_y l e) Hf hk28 hk20"
      by blast
    have f: "fuseDrag_axis l 1 [] Kfusion e = fuseDrag_axis_y l Kfusion e"
      by (simp add: fuseDrag_axis_def)
    have v: "innov_var l e 1 = innov_var_y l e" by (simp add: innov_var_def)
    show ?thesis
      unfolding a innov_var_computed_def f t v by (rule axis_tail_variance)
  qed
qed

subsection \<open>Badly conditioned axes and accepted updates\<close>

lemma fuseDrag_loop_abort:
  assumes "axis_index < 2" and "innov_var_computed l axis_index Kfusion e < R_ACC l"
  shows "fuseDrag_loop fc indet l (axis_index # rest) Hfusion Kfusion e
       = e\<lparr>drag_innov_var :=
             (drag_innov_var e)(axis_index := innov_var_computed l axis_index Kfusion e)\<rparr>"
  by (simp add: fuseDrag_axis_aborts [OF assms])

text \<open>
  C3, amended.  When the innovation variance that the pass of an axis computes is below
  the noise variance, the loop ends with that pass, whatever axes remain: they are not
  processed (a badly conditioned X axis ends the call before the Y axis).  State and
  covariance are as they were before the pass.
\<close>

theorem fuseDrag_loop_ill_conditioned:
  assumes "axis_index < 2" and "innov_var_computed l axis_index Kfusion e < R_ACC l"
  shows "fuseDrag_loop fixCovarianceErrors indet l (axis_index # rest) Hfusion Kfusion e
           = fuseDrag_loop fixCovarianceErrors indet l [axis_index] Hfusion Kfusion e
       \<and> state (fuseDrag_loop fixCovarianceErrors indet l (axis_index # rest) Hfusion Kfusion e)
           = state e
       \<and> P (fuseDrag_loop fixCovarianceErrors indet l (axis_index # rest) Hfusion Kfusion e)
           = P e"
  by (simp add: fuseDrag_loop_abort [OF assms] del: fuseDrag_loop.simps)

text \<open>
  C8, amended.  When the innovation variance of an axis (the expression of line 131 or
  225) is below the noise variance, the loop ends with the filter it was given but for one
  value: that variance, written to the published innovation variance of the axis.  State
  and covariance are not changed; the innovation and the test ratio are not computed, the
  published ones keep the values they had; the published variance of the other axis is
  not touched either.
\<close>

theorem fuseDrag_loop_abort_published:
  assumes "axis_index < 2" and "innov_var l e axis_index < R_ACC l"
  shows "fuseDrag_loop fixCovarianceErrors indet l (axis_index # rest) Hfusion Kfusion e
       = e\<lparr>drag_innov_var := (drag_innov_var e)(axis_index := innov_var l e axis_index)\<rparr>"
proof -
  have c: "innov_var_computed l axis_index Kfusion e = innov_var l e axis_index"
    by (rule innov_var_computed_eq [OF assms(1)])
  have "innov_var_computed l axis_index Kfusion e < R_ACC l"
    unfolding c by (rule assms(2))
  from fuseDrag_loop_abort [OF assms(1) this] show ?thesis
    unfolding c .
qed

text \<open>
  C5.  For every accepted update (test ratio at most 1, variance check passed), the
  correction that is committed has no negative variance, \<open>P(i,i) - KHP(i,i) \<ge> 0\<close> for
  every state, whatever the gain and the Jacobian; the covariance after the update is what
  the repair routine makes of \<open>P - KHP\<close>, hence symmetric with non-negative variances
  when the routine returns such matrices, as the spec has it do.
\<close>

theorem fuseDrag_update_accepted_covariance:
  assumes "drag_test_ratio e axis_index \<le> 1"
    and "fuseDrag_healthy indet Kfusion Hfusion e"
    and "\<forall>e'. symmetric (fixCovarianceErrors e') \<and> variances_nonneg (fixCovarianceErrors e')"
  shows "variances_nonneg (\<lambda>r c. P e r c - KHP_of indet Kfusion Hfusion (P e) r c)
       \<and> P (fuseDrag_update fixCovarianceErrors indet Kfusion Hfusion axis_index e)
           = fixCovarianceErrors
               (e\<lparr>P := (\<lambda>r c. P e r c - KHP_of indet Kfusion Hfusion (P e) r c)\<rparr>)
       \<and> symmetric (P (fuseDrag_update fixCovarianceErrors indet Kfusion Hfusion axis_index e))
       \<and> variances_nonneg
           (P (fuseDrag_update fixCovarianceErrors indet Kfusion Hfusion axis_index e))"
proof -
  have u: "fuseDrag_update fixCovarianceErrors indet Kfusion Hfusion axis_index e
         = fused fixCovarianceErrors indet Kfusion Hfusion axis_index e"
    using assms(1,2) by (rule fuseDrag_update_healthy)
  have d: "variances_nonneg (\<lambda>r c. P e r c - KHP_of indet Kfusion Hfusion (P e) r c)"
    unfolding variances_nonneg_def
  proof (intro allI impI)
    fix i assume "i < k_num_states"
    with assms(2) have "\<not> P e i i < KHP_of indet Kfusion Hfusion (P e) i i"
      by (simp add: fuseDrag_healthy_iff)
    then show "0 \<le> P e i i - KHP_of indet Kfusion Hfusion (P e) i i" by simp
  qed
  show ?thesis
    unfolding u using d assms(3) by (simp add: fused_def)
qed

subsection \<open>The hover scenario\<close>

lemma hover_rel_wind_body:
  assumes "hover e"
  shows "rel_wind_body (fuseDrag_locals e) r = 0"
  using assms by (simp add: hover_def fuseDrag_locals_def mat_vec3_def Vector3f_def)

lemma hover_innovation:
  assumes "hover e'" and "axis_index < 2" and "\<forall>r. rel_wind_body l r = 0"
  shows "drag_innovation l e' axis_index = 0"
proof -
  from assms(2) have "axis_index = 0 \<or> axis_index = 1" by auto
  then have "drag_mea_acc e' axis_index = 0"
    using assms(1) by (auto simp: drag_mea_acc_def hover_def)
  then show ?thesis
    using assms(3) by (simp add: drag_innovation_def drag_predAccel_def sq_def)
qed

lemma fuseDrag_loop_Next:
  assumes "fuseDrag_axis l axis_index Hfusion Kfusion e = Next e3 Hfusion' Kfusion'"
  shows "fuseDrag_loop fc indet l (axis_index # rest) Hfusion Kfusion e
       = fuseDrag_loop fc indet l rest Hfusion' Kfusion'
           (fuseDrag_update fc indet Kfusion' Hfusion' axis_index e3)"
  using assms by simp

text \<open>One pass of the loop on a filter whose innovation is zero on that axis.\<close>

lemma zero_innovation_pass:
  assumes "axis_index < 2" and "drag_innovation l e axis_index = 0"
    and "\<not> innov_var_computed l axis_index Kfusion e < R_ACC l"
  shows "\<exists>e3 Hfusion' Kfusion'.
      fuseDrag_axis l axis_index Hfusion Kfusion e = Next e3 Hfusion' Kfusion'
      \<and> state (fuseDrag_update fc indet Kfusion' Hfusion' axis_index e3) = state e
      \<and> drag_sample_delayed (fuseDrag_update fc indet Kfusion' Hfusion' axis_index e3)
          = drag_sample_delayed e
      \<and> params (fuseDrag_update fc indet Kfusion' Hfusion' axis_index e3) = params e
      \<and> drag_innov (fuseDrag_update fc indet Kfusion' Hfusion' axis_index e3)
          = (drag_innov e)(axis_index := 0)
      \<and> drag_test_ratio (fuseDrag_update fc indet Kfusion' Hfusion' axis_index e3)
          = (drag_test_ratio e)(axis_index := 0)
      \<and> drag_innov_var (fuseDrag_update fc indet Kfusion' Hfusion' axis_index e3)
          = (drag_innov_var e)(axis_index := innov_var_computed l axis_index Kfusion e)"
proof -
  from fuseDrag_axis_goes_on [OF assms(1,3), of Hfusion]
  obtain Hfusion' k22 k23 where
    n: "fuseDrag_axis l axis_index Hfusion Kfusion e
       = Next (e\<lparr>drag_innov_var :=
                    (drag_innov_var e)(axis_index := innov_var_computed l axis_index Kfusion e),
                 drag_innov := (drag_innov e)(axis_index := drag_innovation l e axis_index),
                 drag_test_ratio := (drag_test_ratio e)(axis_index :=
                    sq (drag_innovation l e axis_index)
                      / (25 * innov_var_computed l axis_index Kfusion e))\<rparr>)
              Hfusion' (Kfusion(22 \<mapsto> k22, 23 \<mapsto> k23))"
    by blast
  define e3 where "e3 = e\<lparr>drag_innov_var :=
                    (drag_innov_var e)(axis_index := innov_var_computed l axis_index Kfusion e),
                 drag_innov := (drag_innov e)(axis_index := 0),
                 drag_test_ratio := (drag_test_ratio e)(axis_index := 0)\<rparr>"
  have n': "fuseDrag_axis l axis_index Hfusion Kfusion e
       = Next e3 Hfusion' (Kfusion(22 \<mapsto> k22, 23 \<mapsto> k23))"
    unfolding n e3_def by (simp add: assms(2) sq_def)
  have z: "drag_innov e3 axis_index = 0" by (simp add: e3_def)
  note p = fuseDrag_update_published
    [of fc indet "Kfusion(22 \<mapsto> k22, 23 \<mapsto> k23)" Hfusion' axis_index e3]
  note s = fuseDrag_update_zero_innovation
    [OF z, of fc indet "Kfusion(22 \<mapsto> k22, 23 \<mapsto> k23)" Hfusion']
  have "state (fuseDrag_update fc indet (Kfusion(22 \<mapsto> k22, 23 \<mapsto> k23)) Hfusion' axis_index e3)
          = state e"
    using s by (simp add: e3_def)
  moreover have "drag_sample_delayed
        (fuseDrag_update fc indet (Kfusion(22 \<mapsto> k22, 23 \<mapsto> k23)) Hfusion' axis_index e3)
          = drag_sample_delayed e"
    using p by (simp add: e3_def)
  moreover have "params
        (fuseDrag_update fc indet (Kfusion(22 \<mapsto> k22, 23 \<mapsto> k23)) Hfusion' axis_index e3)
          = params e"
    using p by (simp add: e3_def)
  moreover have "drag_innov
        (fuseDrag_update fc indet (Kfusion(22 \<mapsto> k22, 23 \<mapsto> k23)) Hfusion' axis_index e3)
          = (drag_innov e)(axis_index := 0)"
    using p by (simp add: e3_def)
  moreover have "drag_test_ratio
        (fuseDrag_update fc indet (Kfusion(22 \<mapsto> k22, 23 \<mapsto> k23)) Hfusion' axis_index e3)
          = (drag_test_ratio e)(axis_index := 0)"
    using p by (simp add: e3_def)
  moreover have "drag_innov_var
        (fuseDrag_update fc indet (Kfusion(22 \<mapsto> k22, 23 \<mapsto> k23)) Hfusion' axis_index e3)
          = (drag_innov_var e)(axis_index := innov_var_computed l axis_index Kfusion e)"
    using p by (simp add: e3_def)
  ultimately show ?thesis using n' by blast
qed

lemma R_ACC_positive:
  assumes "drag_noise (params e) \<noteq> 0"
  shows "0 < R_ACC (fuseDrag_locals e)"
  using assms by (auto simp: fuseDrag_locals_def sq_def zero_less_mult_iff)

text \<open>
  What a pass that goes on to the consistency check publishes when the innovation of its
  axis is zero and the noise variance is not.
\<close>

lemma zero_innovation_published:
  assumes "axis_index < 2" and "drag_innovation l e axis_index = 0" and "0 < R_ACC l"
    and "fuseDrag_axis l axis_index Hfusion Kfusion e = Next e3 Hfusion' Kfusion'"
  shows "0 < drag_innov_var e3 axis_index" and "drag_innov e3 axis_index = 0"
    and "drag_test_ratio e3 axis_index = 0"
    and "state e3 = state e" and "drag_sample_delayed e3 = drag_sample_delayed e"
    and "drag_innov e3 = (drag_innov e)(axis_index := 0)"
    and "drag_test_ratio e3 = (drag_test_ratio e)(axis_index := 0)"
proof -
  note n = fuseDrag_axis_Next [OF assms(1,4)]
  show "0 < drag_innov_var e3 axis_index" using n(2) assms(3) by simp
  show "drag_innov e3 axis_index = 0" by (subst n(1)) (simp add: assms(2))
  show "drag_test_ratio e3 axis_index = 0" by (subst n(1)) (simp add: assms(2) sq_def)
  show "state e3 = state e" by (subst n(1)) simp
  show "drag_sample_delayed e3 = drag_sample_delayed e" by (subst n(1)) simp
  show "drag_innov e3 = (drag_innov e)(axis_index := 0)" by (subst n(1)) (simp add: assms(2))
  show "drag_test_ratio e3 = (drag_test_ratio e)(axis_index := 0)"
    by (subst n(1)) (simp add: assms(2) sq_def)
qed

text \<open>The update of an axis that has passed the consistency check, by the variance check.\<close>

lemma fuseDrag_update_gate_passed:
  assumes "drag_test_ratio e axis_index \<le> 1"
  shows "(fuseDrag_healthy indet Kfusion Hfusion e \<longrightarrow>
            fuseDrag_update fc indet Kfusion Hfusion axis_index e
              = fused fc indet Kfusion Hfusion axis_index e)
       \<and> (\<not> fuseDrag_healthy indet Kfusion Hfusion e \<longrightarrow>
            fuseDrag_update fc indet Kfusion Hfusion axis_index e
              = e\<lparr>P := (\<lambda>r c. if offending (KHP_of indet Kfusion Hfusion (P e)) (P e) r
                                 \<or> offending (KHP_of indet Kfusion Hfusion (P e)) (P e) c
                              then 0 else P e r c)\<rparr>)"
  using fuseDrag_update_healthy [OF assms] fuseDrag_update_unhealthy [OF assms] by blast

text \<open>
  C9, amended.  In the zero-wind hover scenario (identity orientation, zero velocity, zero
  wind, zero sample and zero bias on both axes), with a noise variance and a time step that
  are not zero and the conditioning check passing on both axes (both passes go on to the
  consistency check): the relative wind in the body frame is zero, the predicted specific
  force is zero on both axes, and each axis publishes a positive innovation variance, the
  innovation 0 and the test ratio 0, so it passes the consistency check.  The update of
  an axis is then applied, covariance correction and gain (on a zero innovation), when
  its variance check passes; when that check fails, only the rows and columns of the
  offending states of the covariance are set to zero and no gain is applied.  The call
  ends with the update of the Y axis, and either way the wind velocity after the call is
  the one before it.
\<close>

theorem fuseDrag_hover:
  assumes "\<not> (bcoef_x (params e) < 1 \<or> bcoef_y (params e) < 1)"
    and "hover e"
    and "drag_noise (params e) \<noteq> 0"
    and "dt_ekf_avg e \<noteq> 0"
    and "fuseDrag_axis (fuseDrag_locals e) 0 [] (\<lambda>_. None) e = Next e3 H1 K1"
    and "fuseDrag_axis (fuseDrag_locals e) 1 H1 K1
           (fuseDrag_update fixCovarianceErrors indet K1 H1 0 e3) = Next e4 H2 K2"
  shows "rel_wind_body (fuseDrag_locals e) 0 = 0 \<and> rel_wind_body (fuseDrag_locals e) 1 = 0
       \<and> rel_wind_body (fuseDrag_locals e) 2 = 0
       \<and> drag_predAccel (BC_inv_x (fuseDrag_locals e)) (fuseDrag_locals e) 0 = 0
       \<and> drag_predAccel (BC_inv_y (fuseDrag_locals e)) (fuseDrag_locals e) 1 = 0
       \<and> 0 < drag_innov_var e3 0 \<and> drag_innov e3 0 = 0 \<and> drag_test_ratio e3 0 = 0
       \<and> (fuseDrag_healthy indet K1 H1 e3 \<longrightarrow>
            fuseDrag_update fixCovarianceErrors indet K1 H1 0 e3
              = fused fixCovarianceErrors indet K1 H1 0 e3)
       \<and> (\<not> fuseDrag_healthy indet K1 H1 e3 \<longrightarrow>
            fuseDrag_update fixCovarianceErrors indet K1 H1 0 e3
              = e3\<lparr>P := (\<lambda>r c. if offending (KHP_of indet K1 H1 (P e3)) (P e3) r
                                  \<or> offending (KHP_of indet K1 H1 (P e3)) (P e3) c
                               then 0 else P e3 r c)\<rparr>)
       \<and> 0 < drag_innov_var e4 1 \<and> drag_innov e4 1 = 0 \<and> drag_test_ratio e4 1 = 0
       \<and> (fuseDrag_healthy indet K2 H2 e4 \<longrightarrow>
            fuseDrag_update fixCovarianceErrors indet K2 H2 1 e4
              = fused fixCovarianceErrors indet K2 H2 1 e4)
       \<and> (\<not> fuseDrag_healthy indet K2 H2 e4 \<longrightarrow>
            fuseDrag_update fixCovarianceErrors indet K2 H2 1 e4
              = e4\<lparr>P := (\<lambda>r c. if offending (KHP_of indet K2 H2 (P e4)) (P e4) r
                                  \<or> offending (KHP_of indet K2 H2 (P e4)) (P e4) c
                               then 0 else P e4 r c)\<rparr>)
       \<and> fuseDrag fixCovarianceErrors indet e = fuseDrag_update fixCovarianceErrors indet K2 H2 1 e4
       \<and> drag_innov (fuseDrag fixCovarianceErrors indet e) 0 = 0
       \<and> drag_innov (fuseDrag fixCovarianceErrors indet e) 1 = 0
       \<and> drag_test_ratio (fuseDrag fixCovarianceErrors indet e) 0 = 0
       \<and> drag_test_ratio (fuseDrag fixCovarianceErrors indet e) 1 = 0
       \<and> wind_vel (state (fuseDrag fixCovarianceErrors indet e)) = wind_vel (state e)"
proof -
  define l where "l = fuseDrag_locals e"
  define e' where "e' = fuseDrag_update fixCovarianceErrors indet K1 H1 0 e3"
  define F where "F = fuseDrag fixCovarianceErrors indet e"
  note X = assms(5) [folded l_def]
  note Y = assms(6) [folded l_def e'_def]
  have R: "0 < R_ACC l" unfolding l_def by (rule R_ACC_positive [OF assms(3)])
  have w: "\<forall>r. rel_wind_body l r = 0"
    using hover_rel_wind_body [OF assms(2)] by (simp add: l_def)
  have pa: "drag_predAccel B l a = 0" for B a
    using w by (simp add: drag_predAccel_def sq_def)
  have ix: "drag_innovation l e 0 = 0"
    using hover_innovation [OF assms(2) _ w, of 0] by simp
  have lt0: "(0::nat) < 2" and lt1: "(1::nat) < 2" by simp_all
  note x = zero_innovation_published [OF lt0 ix R X]
  have gx: "drag_test_ratio e3 0 \<le> 1" using x(3) by simp
  have se': "state e' = state e"
    unfolding e'_def using fuseDrag_update_zero_innovation [OF x(2)] x(4) by simp
  have pe': "drag_sample_delayed e' = drag_sample_delayed e"
    "drag_innov e' = (drag_innov e)(0 := 0)"
    "drag_test_ratio e' = (drag_test_ratio e)(0 := 0)"
    unfolding e'_def using fuseDrag_update_published [of fixCovarianceErrors indet K1 H1 0 e3] x
    by simp_all
  have h': "hover e'"
    using assms(2) se' pe'(1) by (simp add: hover_def)
  have iy: "drag_innovation l e' 1 = 0"
    using hover_innovation [OF h' _ w, of 1] by simp
  note y = zero_innovation_published [OF lt1 iy R Y]
  have gy: "drag_test_ratio e4 1 \<le> 1" using y(3) by simp
  have "F = fuseDrag_loop fixCovarianceErrors indet l [0, 1] [] (\<lambda>_. None) e"
    using assms(1) by (simp add: F_def fuseDrag_def l_def)
  also have "\<dots> = fuseDrag_loop fixCovarianceErrors indet l [1] H1 K1 e'"
    unfolding e'_def by (rule fuseDrag_loop_Next [OF X])
  also have "\<dots> = fuseDrag_update fixCovarianceErrors indet K2 H2 1 e4"
    unfolding fuseDrag_loop_Next [OF Y] by simp
  finally have F2: "F = fuseDrag_update fixCovarianceErrors indet K2 H2 1 e4" .
  note pF = fuseDrag_update_published [of fixCovarianceErrors indet K2 H2 1 e4]
  have sF: "state F = state e"
    unfolding F2 using fuseDrag_update_zero_innovation [OF y(2)] y(4) se' by simp
  have iF: "drag_innov F 0 = 0 \<and> drag_innov F 1 = 0"
    unfolding F2 using pF y(6) pe'(2) by simp
  have tF: "drag_test_ratio F 0 = 0 \<and> drag_test_ratio F 1 = 0"
    unfolding F2 using pF y(7) pe'(3) by simp
  note ux = fuseDrag_update_gate_passed [OF gx, of indet K1 H1 fixCovarianceErrors]
  note uy = fuseDrag_update_gate_passed [OF gy, of indet K2 H2 fixCovarianceErrors]
  have wF: "wind_vel (state F) = wind_vel (state e)" using sF by simp
  show ?thesis
    unfolding l_def [symmetric] F_def [symmetric]
    using w pa [of "BC_inv_x l" 0] pa [of "BC_inv_y l" 1] x(1,2,3) ux y(1,2,3) uy F2 iF tF wF
    by blast
qed

subsection \<open>Evaluation on the test inputs\<close>

lemma locals_test:
  "R_ACC (fuseDrag_locals (ekf_test vx vy Pm)) = 1/4"
  "rho (fuseDrag_locals (ekf_test vx vy Pm)) = 1"
  "BC_inv_x (fuseDrag_locals (ekf_test vx vy Pm)) = 1"
  "BC_inv_y (fuseDrag_locals (ekf_test vx vy Pm)) = 1"
  "q0 (fuseDrag_locals (ekf_test vx vy Pm)) = 1"
  "q1 (fuseDrag_locals (ekf_test vx vy Pm)) = 0"
  "q2 (fuseDrag_locals (ekf_test vx vy Pm)) = 0"
  "q3 (fuseDrag_locals (ekf_test vx vy Pm)) = 0"
  "vn (fuseDrag_locals (ekf_test vx vy Pm)) = vx"
  "ve (fuseDrag_locals (ekf_test vx vy Pm)) = vy"
  "vd (fuseDrag_locals (ekf_test vx vy Pm)) = 0"
  "vwn (fuseDrag_locals (ekf_test vx vy Pm)) = 0"
  "vwe (fuseDrag_locals (ekf_test vx vy Pm)) = 0"
  "rel_wind_body (fuseDrag_locals (ekf_test vx vy Pm)) 0 = vx"
  "rel_wind_body (fuseDrag_locals (ekf_test vx vy Pm)) (Suc 0) = vy"
  by (simp_all add: fuseDrag_locals_def ekf_test_def state_test_def sq_def
      zero_vec_def mat_vec3_def quatToInverseRotMat_def Vector3f_def)

lemma state_test_fields:
  "delta_vel_bias (state_test vx vy) = zero_vec" "wind_vel (state_test vx vy) = zero_vec"
  "vel (state_test vx vy) = Vector3f vx vy 0"
  by (simp_all add: state_test_def)

lemma fields_test:
  "P (ekf_test vx vy Pm) = Pm"
  "accelXY (drag_sample_delayed (ekf_test vx vy Pm)) = zero_vec"
  "dt_ekf_avg (ekf_test vx vy Pm) = 1"
  "delta_vel_bias (state (ekf_test vx vy Pm)) = zero_vec"
  "state (ekf_test vx vy Pm) = state_test vx vy"
  "drag_innov (ekf_test vx vy Pm) = (\<lambda>_. 7)"
  "drag_test_ratio (ekf_test vx vy Pm) = (\<lambda>_. 9)"
  "drag_innov_var (ekf_test vx vy Pm) = zero_vec"
  "\<not> (bcoef_x (params (ekf_test vx vy Pm)) < 1 \<or> bcoef_y (params (ekf_test vx vy Pm)) < 1)"
  by (simp_all add: ekf_test_def state_test_def)

subsection \<open>Moving east: the X axis is badly conditioned\<close>

lemma pass_x_east:
  "fuseDrag_axis (fuseDrag_locals ekf_east) 0 [] Map.empty ekf_east = Return ekf_east_x"
  unfolding fuseDrag_axis_def fuseDrag_axis_x_def Let_def ekf_east_x_def
  unfolding ekf_east_def
  by (simp add: locals_test fields_test state_test_fields P_cross_def zero_vec_def sq_def
      power2_eq_square)

lemma fields_east_x:
  "P ekf_east_x = P_cross 10" "accelXY (drag_sample_delayed ekf_east_x) = zero_vec"
  "dt_ekf_avg ekf_east_x = 1" "delta_vel_bias (state ekf_east_x) = zero_vec"
  "state ekf_east_x = state_test 0 2"
  by (simp_all add: ekf_east_x_def ekf_east_def fields_test state_test_fields)

lemma pass_y_east:
  "fuseDrag_axis (fuseDrag_locals ekf_east) 1 [] Map.empty ekf_east_x
     = Next ekf_east_y H_east K_east"
  unfolding fuseDrag_axis_def fuseDrag_axis_y_def Let_def ekf_east_y_def
  unfolding ekf_east_def
  by (simp add: locals_test fields_east_x state_test_fields P_cross_def zero_vec_def sq_def
      power2_eq_square H_east_def K_east_def)

lemma fields_east_y:
  "P ekf_east_y = P_cross 10" "drag_test_ratio ekf_east_y (Suc 0) = 16/43"
  "drag_innov ekf_east_y (Suc 0) = - 2" "state ekf_east_y = state_test 0 2"
  by (simp_all add: ekf_east_y_def fields_east_x)

lemma healthy_east_y: "fuseDrag_healthy zero_vec K_east H_east ekf_east_y"
  unfolding fuseDrag_healthy_iff fields_east_y
  by (auto simp: KHP_of_def read_gain_def K_east_def H_east_def zero_vec_def P_cross_def
      k_num_states_def)

lemma update_y_east:
  "fuseDrag_update fc zero_vec K_east H_east 1 ekf_east_y = fused fc zero_vec K_east H_east 1 ekf_east_y"
proof -
  have g: "drag_test_ratio ekf_east_y 1 \<le> 1" using fields_east_y(2) by simp
  show ?thesis by (rule fuseDrag_update_healthy [OF g healthy_east_y])
qed

lemma wind_y_east:
  "wind_vel (state (fused fc zero_vec K_east H_east 1 ekf_east_y)) 0 = 20/43"
  unfolding fused_def using fields_east_y(3,4)
  by (simp add: fuse_def read_gain_def K_east_def state_test_def zero_vec_def)

lemma innov_var_east_x:
  "innov_var_computed (fuseDrag_locals ekf_east) 0 Map.empty ekf_east = 23/100"
  by (simp add: innov_var_computed_def pass_x_east flow_Ekf_def ekf_east_x_def)

lemma innov_var_east_y:
  "innov_var_computed (fuseDrag_locals ekf_east) 1 Map.empty ekf_east_x = 43/100"
  using pass_y_east by (simp add: innov_var_computed_def flow_Ekf_def ekf_east_y_def)

lemma fuseDrag_east: "fuseDrag fc indet ekf_east = ekf_east_x"
  unfolding fuseDrag_def using pass_x_east
  by (simp add: ekf_east_def fields_test)

text \<open>
  C3, as stated, fails on the code.  Moving east at 2 m/s with the covariance 10 between
  states 4 and 22, the X axis is badly conditioned (variance 23/100 below the noise 1/4)
  and the Y axis is not (43/100).  A pass of the Y axis on the filter the X axis leaves
  would fuse and move the north wind to 20/43; the call leaves wind and covariance as they
  were and never writes the innovation variance of the Y axis.
\<close>

theorem fuseDrag_ill_conditioned_x_skips_y:
  "innov_var_computed (fuseDrag_locals ekf_east) 0 Map.empty ekf_east
     < R_ACC (fuseDrag_locals ekf_east)
   \<and> \<not> innov_var_computed (fuseDrag_locals ekf_east) 1 Map.empty ekf_east_x
       < R_ACC (fuseDrag_locals ekf_east)
   \<and> wind_vel (state (fuseDrag_loop fixCovarianceErrors_spec zero_vec (fuseDrag_locals ekf_east)
        [1] [] Map.empty ekf_east_x)) 0 = 20/43
   \<and> wind_vel (state (fuseDrag fixCovarianceErrors_spec zero_vec ekf_east)) 0 = 0
   \<and> P (fuseDrag fixCovarianceErrors_spec zero_vec ekf_east) = P ekf_east
   \<and> drag_innov_var (fuseDrag fixCovarianceErrors_spec zero_vec ekf_east) 1 = 0"
proof -
  have l: "R_ACC (fuseDrag_locals ekf_east) = 1/4"
    by (simp add: ekf_east_def locals_test)
  have y: "fuseDrag_loop fixCovarianceErrors_spec zero_vec (fuseDrag_locals ekf_east)
        [1] [] Map.empty ekf_east_x
      = fused fixCovarianceErrors_spec zero_vec K_east H_east 1 ekf_east_y"
    unfolding fuseDrag_loop_Next [OF pass_y_east] using update_y_east by simp
  show ?thesis
    unfolding y fuseDrag_east innov_var_east_x innov_var_east_y l wind_y_east
    by (simp add: fields_east_x state_test_def zero_vec_def ekf_east_x_def ekf_east_def fields_test)
qed

subsection \<open>The guard on the ballistic coefficients\<close>

text \<open>
  C7.  If either ballistic coefficient is below 1, the call changes nothing: the filter
  (state, covariance and published values) is the same before and after, whatever the
  state, the covariance, the sample, the repair routine and the contents of the stack.
  The call returns the filter as every other call does: there is no error value.
\<close>

theorem fuseDrag_disabled_noop:
  "bcoef_x (params e) < 1 \<or> bcoef_y (params e) < 1 \<Longrightarrow>
   fuseDrag fixCovarianceErrors indet e = e"
  by (simp add: fuseDrag_def)

theorem fuseDrag_disabled_noop_witness:
  "(bcoef_x (params ekf_disabled) < 1 \<or> bcoef_y (params ekf_disabled) < 1)
   \<and> fuseDrag fixCovarianceErrors_spec indet_4 ekf_disabled = ekf_disabled"
proof -
  have h: "bcoef_x (params ekf_disabled) < 1 \<or> bcoef_y (params ekf_disabled) < 1"
    by (simp add: ekf_disabled_def)
  from h fuseDrag_disabled_noop [OF h, of fixCovarianceErrors_spec indet_4]
  show ?thesis by (rule conjI)
qed

subsection \<open>The gain of the north and east velocity observations\<close>

lemma inv2_right_inverse:
  assumes "det2 A \<noteq> 0" and "r < 2" and "c < 2"
  shows "mul2 A (inv2 A) r c = (if r = c then 1 else 0)"
proof -
  have rc: "(r = 0 \<or> r = 1) \<and> (c = 0 \<or> c = 1)"
    using assms(2,3) by auto
  define D where "D = det2 A"
  have D: "D \<noteq> 0" using assms(1) by (simp add: D_def)
  have D2: "A 0 0 * A 1 1 - A 0 1 * A 1 0 = D" by (simp add: D_def det2_def)
  have e00: "A 0 0 * (A 1 1 / D) + A 0 1 * (- A 1 0 / D) = 1"
    using D D2 by (simp add: field_simps)
  have e11: "A 1 0 * (- A 0 1 / D) + A 1 1 * (A 0 0 / D) = 1"
    using D D2 by (simp add: field_simps)
  have e01: "A 0 0 * (- A 0 1 / D) + A 0 1 * (A 0 0 / D) = 0"
    using D by (simp add: field_simps)
  have e10: "A 1 0 * (A 1 1 / D) + A 1 1 * (- A 1 0 / D) = 0"
    using D by (simp add: field_simps)
  from rc show ?thesis
    unfolding mul2_def inv2_def D_def [symmetric]
    using e00 e01 e10 e11 by auto
qed

text \<open>
  C10.  For a symmetric 2 by 2 block of the covariance and an observation variance with
  \<open>(P(0,0) + velObsVar) (P(1,1) + velObsVar) - P(0,1)\<^sup>2\<close> not zero, the three entries that
  the fragment assigns, \<open>K(0,0)\<close>, \<open>K(0,1)\<close> and \<open>K(1,1)\<close>, are those of the joint gain
  \<open>P (P + velObsVar I)\<^sup>-\<^sup>1\<close>.
\<close>

theorem NE_velocity_gain_joint:
  assumes "P e 1 0 = P e 0 1"
    and "(P e 0 0 + velObsVar) * (P e 1 1 + velObsVar) - P e 0 1 ^ 2 \<noteq> 0"
  shows "NE_velocity_gain e velObsVar K 0 0 = joint_gain2 e velObsVar 0 0
       \<and> NE_velocity_gain e velObsVar K 0 1 = joint_gain2 e velObsVar 0 1
       \<and> NE_velocity_gain e velObsVar K 1 1 = joint_gain2 e velObsVar 1 1"
proof -
  define a where "a = P e 0 0"
  define b where "b = P e 0 1"
  define d where "d = P e 1 1"
  define v where "v = velObsVar"
  define D where "D = (a + v) * (d + v) - b * b"
  have D: "D \<noteq> 0"
    using assms(2) by (simp add: D_def a_def b_def d_def v_def power2_eq_square)
  have S3: "1 / (b ^ 2 - (d + v) * (a + v)) = - (1 / D)"
  proof -
    have "b ^ 2 - (d + v) * (a + v) = - D"
      by (simp add: D_def power2_eq_square algebra_simps)
    then show ?thesis by (simp only: divide_minus_right)
  qed
  have lhs00: "NE_velocity_gain e velObsVar K 0 0 = - (1 / D) * (- a * (d + v) + b ^ 2)"
    by (simp add: NE_velocity_gain_def Let_def a_def b_def d_def v_def flip: S3)
  have lhs01: "NE_velocity_gain e velObsVar K 0 1 = - b * (- (1 / D)) * v"
    by (simp add: NE_velocity_gain_def Let_def a_def b_def d_def v_def flip: S3)
  have lhs11: "NE_velocity_gain e velObsVar K 1 1 = - (1 / D) * (- d * (a + v) + b ^ 2)"
    by (simp add: NE_velocity_gain_def Let_def a_def b_def d_def v_def flip: S3)
  have det: "det2 (innovation_cov2 e velObsVar) = D"
    using assms(1) by (simp add: det2_def innovation_cov2_def D_def a_def b_def d_def v_def)
  have rhs00: "joint_gain2 e velObsVar 0 0 = a * ((d + v) / D) + b * (- b / D)"
    using assms(1) unfolding joint_gain2_def mul2_def inv2_def det
    by (simp add: innovation_cov2_def a_def b_def d_def v_def)
  have rhs01: "joint_gain2 e velObsVar 0 1 = a * (- b / D) + b * ((a + v) / D)"
    using assms(1) unfolding joint_gain2_def mul2_def inv2_def det
    by (simp add: innovation_cov2_def a_def b_def d_def v_def)
  have rhs11: "joint_gain2 e velObsVar 1 1 = b * (- b / D) + d * ((a + v) / D)"
    using assms(1) unfolding joint_gain2_def mul2_def inv2_def det
    by (simp add: innovation_cov2_def a_def b_def d_def v_def)
  have e00: "- (1 / D) * (- a * (d + v) + b ^ 2) = a * ((d + v) / D) + b * (- b / D)"
    using D by (simp add: field_simps power2_eq_square)
  have e01: "- b * (- (1 / D)) * v = a * (- b / D) + b * ((a + v) / D)"
    using D by (simp add: field_simps)
  have e11: "- (1 / D) * (- d * (a + v) + b ^ 2) = b * (- b / D) + d * ((a + v) / D)"
    using D by (simp add: field_simps power2_eq_square)
  show ?thesis
    unfolding lhs00 lhs01 lhs11 rhs00 rhs01 rhs11 using e00 e01 e11 by simp
qed

lemma joint_gain2_ne:
  "joint_gain2 ekf_ne 1 0 0 = 5/8" "joint_gain2 ekf_ne 1 0 1 = 1/8"
  "joint_gain2 ekf_ne 1 1 1 = 5/8"
  by (simp_all add: joint_gain2_def mul2_def inv2_def det2_def innovation_cov2_def ekf_ne_def
      fields_test)

theorem NE_velocity_gain_joint_witness:
  "P ekf_ne 1 0 = P ekf_ne 0 1
   \<and> (P ekf_ne 0 0 + 1) * (P ekf_ne 1 1 + 1) - P ekf_ne 0 1 ^ 2 \<noteq> 0
   \<and> NE_velocity_gain ekf_ne 1 (\<lambda>r c. 0) 0 0 = 5/8
   \<and> NE_velocity_gain ekf_ne 1 (\<lambda>r c. 0) 0 1 = 1/8
   \<and> NE_velocity_gain ekf_ne 1 (\<lambda>r c. 0) 1 1 = 5/8"
proof -
  have h1: "P ekf_ne 1 0 = P ekf_ne 0 1"
    by (simp add: ekf_ne_def fields_test)
  have h2: "(P ekf_ne 0 0 + 1) * (P ekf_ne 1 1 + 1) - P ekf_ne 0 1 ^ 2 \<noteq> 0"
    by (simp add: ekf_ne_def fields_test)
  from NE_velocity_gain_joint [OF h1 h2, of "\<lambda>r c. 0"] h1 h2
  show ?thesis by (simp only: joint_gain2_ne simp_thms)
qed

subsection \<open>Moving north: the X axis is fused\<close>

lemma pass_x_north:
  "fuseDrag_axis (fuseDrag_locals ekf_north) 0 [] Map.empty ekf_north
     = Next ekf_north_x H_north K_north"
  unfolding fuseDrag_axis_def fuseDrag_axis_x_def Let_def ekf_north_x_def
  unfolding ekf_north_def
  by (simp add: locals_test fields_test state_test_fields P_cross_def zero_vec_def sq_def
      power2_eq_square H_north_def K_north_def)

lemma fields_north_x:
  "P ekf_north_x = P_cross 0" "drag_test_ratio ekf_north_x 0 = 16/43"
  "drag_innov ekf_north_x 0 = - 2" "drag_innov_var ekf_north_x 0 = 43/100"
  "state ekf_north_x = state_test 2 0"
  "accelXY (drag_sample_delayed ekf_north_x) = zero_vec" "dt_ekf_avg ekf_north_x = 1"
  by (simp_all add: ekf_north_x_def ekf_north_def fields_test)

lemma healthy_north_x:
  "fuseDrag_healthy zero_vec K_north H_north ekf_north_x"
  "fuseDrag_healthy indet_4 K_north H_north ekf_north_x"
  unfolding fuseDrag_healthy_iff fields_north_x
  by (auto simp: KHP_of_def read_gain_def K_north_def H_north_def zero_vec_def indet_4_def
      P_cross_def k_num_states_def)

lemma gate_north_x: "drag_test_ratio ekf_north_x 0 \<le> 1"
  by (simp add: fields_north_x)

lemma update_x_north:
  "fuseDrag_update fc zero_vec K_north H_north 0 ekf_north_x
     = fused fc zero_vec K_north H_north 0 ekf_north_x"
  "fuseDrag_update fc indet_4 K_north H_north 0 ekf_north_x
     = fused fc indet_4 K_north H_north 0 ekf_north_x"
  by (rule fuseDrag_update_healthy [OF gate_north_x healthy_north_x(1)],
      rule fuseDrag_update_healthy [OF gate_north_x healthy_north_x(2)])

lemma fused_north_state:
  "vel (state (fused fc zero_vec K_north H_north 0 ekf_north_x)) 0 = 2"
  "vel (state (fused fc indet_4 K_north H_north 0 ekf_north_x)) 0 = 4"
  "delta_vel_bias (state (fused fc indet_4 K_north H_north 0 ekf_north_x)) (Suc 0) = 0"
  "wind_vel (state (fused fc indet_4 K_north H_north 0 ekf_north_x)) 0 = 20/43"
  unfolding fused_def
  by (simp_all add: fields_north_x fuse_def read_gain_def K_north_def state_test_def
      zero_vec_def indet_4_def Vector3f_def)

lemma fused_north_cov:
  "P (fused fixCovarianceErrors_spec zero_vec K_north H_north 0 ekf_north_x) 4 4 = 1"
  "P (fused fixCovarianceErrors_spec indet_4 K_north H_north 0 ekf_north_x) 4 4 = 11/10"
  unfolding fused_def
  by (simp_all add: fields_north_x fixCovarianceErrors_spec_def KHP_of_def read_gain_def
      K_north_def H_north_def zero_vec_def indet_4_def P_cross_def k_num_states_def)

text \<open>The last pass of the loop changes no state when its innovation is zero.\<close>

lemma last_pass_zero_innovation:
  assumes "axis_index < 2" and "drag_innovation l e axis_index = 0"
  shows "state (fuseDrag_loop fc indet l [axis_index] Hfusion Kfusion e) = state e"
proof (cases "innov_var_computed l axis_index Kfusion e < R_ACC l")
  case True
  show ?thesis
    unfolding fuseDrag_loop_abort [OF assms(1) True] by simp
next
  case False
  from zero_innovation_pass [OF assms False, of Hfusion fc indet]
  obtain e3 H' K' where
    p: "fuseDrag_axis l axis_index Hfusion Kfusion e = Next e3 H' K'"
    and s: "state (fuseDrag_update fc indet K' H' axis_index e3) = state e"
    by auto
  show ?thesis
    unfolding fuseDrag_loop_Next [OF p] using s by simp
qed

lemma innovation_y_north:
  "drag_innovation (fuseDrag_locals ekf_north) (fused fc indet_4 K_north H_north 0 ekf_north_x) 1
     = 0"
proof -
  have m: "drag_mea_acc (fused fc indet_4 K_north H_north 0 ekf_north_x) 1 = 0"
    unfolding drag_mea_acc_def using fused_north_state(3) [of fc]
    by (simp add: fused_def fields_north_x zero_vec_def)
  show ?thesis
    unfolding drag_innovation_def m
    by (simp add: drag_predAccel_def ekf_north_def locals_test sq_def)
qed

lemma fuseDrag_north_state:
  "state (fuseDrag fc indet_4 ekf_north) = state (fused fc indet_4 K_north H_north 0 ekf_north_x)"
proof -
  have "fuseDrag fc indet_4 ekf_north
      = fuseDrag_loop fc indet_4 (fuseDrag_locals ekf_north) [0, 1] [] Map.empty ekf_north"
    by (simp add: fuseDrag_def ekf_north_def fields_test)
  also have "\<dots> = fuseDrag_loop fc indet_4 (fuseDrag_locals ekf_north) [1] H_north K_north
                     (fused fc indet_4 K_north H_north 0 ekf_north_x)"
    unfolding fuseDrag_loop_Next [OF pass_x_north] update_x_north ..
  finally have f: "fuseDrag fc indet_4 ekf_north
      = fuseDrag_loop fc indet_4 (fuseDrag_locals ekf_north) [1] H_north K_north
          (fused fc indet_4 K_north H_north 0 ekf_north_x)" .
  show ?thesis
    unfolding f by (rule last_pass_zero_innovation [OF _ innovation_y_north]) simp
qed

text \<open>
  C1.  The claim fails on the code.  Moving north at 2 m/s, with memory that holds 1 in
  entry 4 of \<^verbatim>\<open>Kfusion\<close>: that entry is never assigned, the gain read for state 4 is 1
  and not 0, the X axis is fused, and the call moves the north velocity from 2 to 4.
\<close>

theorem fuseDrag_corrects_velocity:
  "vel (state ekf_north) 0 = 2
   \<and> fuseDrag_axis (fuseDrag_locals ekf_north) 0 [] Map.empty ekf_north
       = Next ekf_north_x H_north K_north
   \<and> K_north 4 = None
   \<and> read_gain indet_4 K_north 4 = 1
   \<and> drag_test_ratio ekf_north_x 0 \<le> 1
   \<and> fuseDrag_healthy indet_4 K_north H_north ekf_north_x
   \<and> vel (state (fuseDrag fixCovarianceErrors_spec indet_4 ekf_north)) 0 = 4"
  unfolding fuseDrag_north_state fused_north_state
  using pass_x_north gate_north_x healthy_north_x(2)
  by (simp add: ekf_north_def fields_test state_test_fields Vector3f_def K_north_def
      read_gain_def indet_4_def)

text \<open>
  Whatever the input, a pass assigns the entries 22 and 23 of the gain and no other: the
  entries 0 to 21 are as unassigned after it as they were before it.
\<close>

lemma fuseDrag_axis_assigns_wind_gain_only:
  assumes "axis_index < 2"
    and "fuseDrag_axis l axis_index Hfusion Kfusion e = Next e3 Hfusion' Kfusion'"
    and "i \<noteq> 22" and "i \<noteq> 23"
  shows "Kfusion' i = Kfusion i"
proof -
  from fuseDrag_axis_Next(4) [OF assms(1,2)]
  obtain k22 k23 where "Kfusion' = Kfusion(22 \<mapsto> k22, 23 \<mapsto> k23)" by blast
  then show ?thesis using assms(3,4) by simp
qed

text \<open>
  C2.  The claim fails on the code.  When the covariance correction and the state
  correction read the gain of the X axis, entry 4 has never been assigned, and what the
  memory holds there decides the outcome: with 0 the variance of state 4 stays 1 and the
  north velocity stays 2, with 1 they become 11/10 and 4.
\<close>

theorem fuseDrag_update_reads_unassigned_gain:
  "fuseDrag_axis (fuseDrag_locals ekf_north) 0 [] Map.empty ekf_north
       = Next ekf_north_x H_north K_north
   \<and> K_north 4 = None
   \<and> P (fuseDrag_update fixCovarianceErrors_spec zero_vec K_north H_north 0 ekf_north_x) 4 4 = 1
   \<and> P (fuseDrag_update fixCovarianceErrors_spec indet_4 K_north H_north 0 ekf_north_x) 4 4
       = 11/10
   \<and> vel (state (fuseDrag_update fixCovarianceErrors_spec zero_vec K_north H_north 0 ekf_north_x)) 0
       = 2
   \<and> vel (state (fuseDrag_update fixCovarianceErrors_spec indet_4 K_north H_north 0 ekf_north_x)) 0
       = 4"
  unfolding update_x_north fused_north_state fused_north_cov
  using pass_x_north by (simp add: K_north_def)

subsection \<open>Moving north with a negative covariance: the variance check fails\<close>

lemma pass_x_neg:
  "fuseDrag_axis (fuseDrag_locals ekf_neg) 0 [] Map.empty ekf_neg
     = Next ekf_neg_x H_north K_neg"
  unfolding fuseDrag_axis_def fuseDrag_axis_x_def Let_def ekf_neg_x_def
  unfolding ekf_neg_def
  by (simp add: locals_test fields_test state_test_fields P_cross_def zero_vec_def sq_def
      power2_eq_square H_north_def K_neg_def)

lemma fields_neg_x:
  "P ekf_neg_x = P_cross (- 10)" "drag_test_ratio ekf_neg_x 0 = 16/63"
  "drag_innov ekf_neg_x 0 = - 2" "drag_innov_var ekf_neg_x 0 = 63/100"
  "state ekf_neg_x = state_test 2 0"
  by (simp_all add: ekf_neg_x_def ekf_neg_def fields_test)

lemma gate_neg_x: "drag_test_ratio ekf_neg_x 0 \<le> 1"
  by (simp add: fields_neg_x)

lemma KHP_neg_22:
  "KHP_of zero_vec K_neg H_north (P ekf_neg_x) 22 22 = 121/63"
  by (simp add: fields_neg_x KHP_of_def read_gain_def K_neg_def H_north_def P_cross_def
      k_num_states_def)

lemma negative_variance_neg_x:
  "\<exists>i < k_num_states. P ekf_neg_x i i < KHP_of zero_vec K_neg H_north (P ekf_neg_x) i i"
proof (intro exI conjI)
  show "22 < k_num_states" by (simp add: k_num_states_def)
  show "P ekf_neg_x 22 22 < KHP_of zero_vec K_neg H_north (P ekf_neg_x) 22 22"
    unfolding KHP_neg_22 by (simp add: fields_neg_x P_cross_def)
qed

lemma unhealthy_neg_x: "\<not> fuseDrag_healthy zero_vec K_neg H_north ekf_neg_x"
  using negative_variance_neg_x by (simp add: fuseDrag_healthy_iff)

lemma offending_neg_x:
  "offending (KHP_of zero_vec K_neg H_north (P ekf_neg_x)) (P ekf_neg_x) i \<longleftrightarrow> i = 22"
  unfolding offending_def fields_neg_x
  by (auto simp: KHP_of_def read_gain_def K_neg_def H_north_def zero_vec_def P_cross_def
      k_num_states_def)

lemma fused_neg_wind:
  "wind_vel (state (fused fc zero_vec K_neg H_north 0 ekf_neg_x)) 0 = 220/63"
  unfolding fused_def
  by (simp add: fields_neg_x fuse_def read_gain_def K_neg_def state_test_def zero_vec_def)

text \<open>
  C6, as stated, fails on the code: a test ratio of at most 1 does not suffice for the
  measurement to be fused.  Moving north with the covariance -10 between states 4 and 22,
  the test ratio of the X axis is 16/63, yet the update applies neither correction: the
  state stays as it is (fusing would move the north wind to 220/63) and the covariance of
  state 22 is reset, its variance to 0.
\<close>

theorem gate_passed_yet_not_fused:
  "fuseDrag_axis (fuseDrag_locals ekf_neg) 0 [] Map.empty ekf_neg = Next ekf_neg_x H_north K_neg
   \<and> drag_test_ratio ekf_neg_x 0 = 16/63
   \<and> drag_test_ratio ekf_neg_x 0 \<le> 1
   \<and> state (fuseDrag_update fixCovarianceErrors_spec zero_vec K_neg H_north 0 ekf_neg_x)
       = state ekf_neg_x
   \<and> wind_vel (state ekf_neg_x) 0 = 0
   \<and> wind_vel (state (fused fixCovarianceErrors_spec zero_vec K_neg H_north 0 ekf_neg_x)) 0
       = 220/63
   \<and> P ekf_neg_x 22 22 = 1
   \<and> P (fuseDrag_update fixCovarianceErrors_spec zero_vec K_neg H_north 0 ekf_neg_x) 22 22 = 0"
proof -
  have u: "fuseDrag_update fixCovarianceErrors_spec zero_vec K_neg H_north 0 ekf_neg_x
         = ekf_neg_x\<lparr>P := (\<lambda>r c. if r = 22 \<or> c = 22 then 0 else P ekf_neg_x r c)\<rparr>"
    unfolding fuseDrag_update_unhealthy [OF gate_neg_x unhealthy_neg_x] offending_neg_x ..
  have s: "state (fuseDrag_update fixCovarianceErrors_spec zero_vec K_neg H_north 0 ekf_neg_x)
         = state ekf_neg_x"
    unfolding u by simp
  have p: "P (fuseDrag_update fixCovarianceErrors_spec zero_vec K_neg H_north 0 ekf_neg_x) 22 22
         = 0"
    unfolding u by simp
  have w: "wind_vel (state ekf_neg_x) 0 = 0"
    by (simp add: fields_neg_x state_test_fields zero_vec_def)
  have v: "P ekf_neg_x 22 22 = 1"
    by (simp add: fields_neg_x P_cross_def)
  show ?thesis
    using pass_x_neg fields_neg_x(2) gate_neg_x s w fused_neg_wind [of fixCovarianceErrors_spec]
      v p
    by (intro conjI)
qed

text \<open>
  C6, amended.  For each axis whose pass goes on to the consistency check, the pass
  changes neither state nor covariance and publishes the innovation (prediction minus
  measurement), the innovation variance and the test ratio \<open>innovation\<^sup>2 / (25 S)\<close>.
  With a test ratio of at most 1 the measurement is fused when the variance check of the
  covariance correction passes, and the state is left as it is when that check fails;
  with a test ratio above 1 the update leaves the whole filter as the pass published it.
\<close>

theorem fuseDrag_gate:
  assumes "axis_index < 2"
    and "fuseDrag_axis l axis_index Hfusion Kfusion e = Next e3 Hfusion' Kfusion'"
  shows "state e3 = state e \<and> P e3 = P e
       \<and> drag_innov e3 axis_index = drag_innovation l e axis_index
       \<and> drag_innov_var e3 axis_index = innov_var_computed l axis_index Kfusion e
       \<and> drag_test_ratio e3 axis_index
           = (drag_innov e3 axis_index)\<^sup>2 / (25 * drag_innov_var e3 axis_index)
       \<and> (drag_test_ratio e3 axis_index \<le> 1 \<and> fuseDrag_healthy indet Kfusion' Hfusion' e3 \<longrightarrow>
            fuseDrag_update fixCovarianceErrors indet Kfusion' Hfusion' axis_index e3
              = fused fixCovarianceErrors indet Kfusion' Hfusion' axis_index e3)
       \<and> (drag_test_ratio e3 axis_index \<le> 1 \<and> \<not> fuseDrag_healthy indet Kfusion' Hfusion' e3 \<longrightarrow>
            state (fuseDrag_update fixCovarianceErrors indet Kfusion' Hfusion' axis_index e3)
              = state e3)
       \<and> (\<not> drag_test_ratio e3 axis_index \<le> 1 \<longrightarrow>
            fuseDrag_update fixCovarianceErrors indet Kfusion' Hfusion' axis_index e3 = e3)"
proof -
  note n = fuseDrag_axis_Next [OF assms]
  have f: "state e3 = state e" "P e3 = P e"
    "drag_innov e3 axis_index = drag_innovation l e axis_index"
    "drag_test_ratio e3 axis_index
       = sq (drag_innovation l e axis_index) / (25 * drag_innov_var e3 axis_index)"
    by (subst n(1), simp)+
  have r: "drag_test_ratio e3 axis_index
           = (drag_innov e3 axis_index)\<^sup>2 / (25 * drag_innov_var e3 axis_index)"
    unfolding f(3) f(4) by (simp add: sq_def power2_eq_square)
  show ?thesis
    using f(1,2,3) r innov_var_computed_Next [OF assms]
    by (simp add: fuseDrag_update_healthy fuseDrag_update_unhealthy fuseDrag_update_rejected)
qed

theorem fuseDrag_gate_witness:
  "(0::nat) < 2
   \<and> fuseDrag_axis (fuseDrag_locals ekf_north) 0 [] Map.empty ekf_north
       = Next ekf_north_x H_north K_north
   \<and> state ekf_north_x = state ekf_north \<and> P ekf_north_x = P ekf_north
   \<and> drag_innov ekf_north_x 0 = drag_innovation (fuseDrag_locals ekf_north) ekf_north 0
   \<and> drag_innov ekf_north_x 0 = - 2
   \<and> drag_innov_var ekf_north_x 0 = 43/100
   \<and> drag_test_ratio ekf_north_x 0 = (drag_innov ekf_north_x 0)\<^sup>2 / (25 * drag_innov_var ekf_north_x 0)
   \<and> drag_test_ratio ekf_north_x 0 \<le> 1
   \<and> fuseDrag_healthy zero_vec K_north H_north ekf_north_x
   \<and> fuseDrag_update fixCovarianceErrors_spec zero_vec K_north H_north 0 ekf_north_x
       = fused fixCovarianceErrors_spec zero_vec K_north H_north 0 ekf_north_x"
proof -
  have h1: "(0::nat) < 2" by simp
  note g = fuseDrag_gate [OF h1 pass_x_north, of zero_vec fixCovarianceErrors_spec]
  from g have a: "state ekf_north_x = state ekf_north" and b: "P ekf_north_x = P ekf_north"
    and c: "drag_innov ekf_north_x 0 = drag_innovation (fuseDrag_locals ekf_north) ekf_north 0"
    and d: "drag_test_ratio ekf_north_x 0
              = (drag_innov ekf_north_x 0)\<^sup>2 / (25 * drag_innov_var ekf_north_x 0)"
    and f: "drag_test_ratio ekf_north_x 0 \<le> 1
              \<and> fuseDrag_healthy zero_vec K_north H_north ekf_north_x \<longrightarrow>
            fuseDrag_update fixCovarianceErrors_spec zero_vec K_north H_north 0 ekf_north_x
              = fused fixCovarianceErrors_spec zero_vec K_north H_north 0 ekf_north_x"
    by blast+
  from f gate_north_x healthy_north_x(1)
  have u: "fuseDrag_update fixCovarianceErrors_spec zero_vec K_north H_north 0 ekf_north_x
              = fused fixCovarianceErrors_spec zero_vec K_north H_north 0 ekf_north_x"
    by blast
  show ?thesis
    using h1 pass_x_north a b c fields_north_x(3) fields_north_x(4) d gate_north_x
      healthy_north_x(1) u
    by (intro conjI)
qed

text \<open>
  C4.  When the test ratio of an axis is at most 1 and the correction would make some
  variance negative (\<open>P(i,i) < KHP(i,i)\<close> for a state \<open>i\<close>), the update applies neither
  \<open>P - KHP\<close> nor the state correction: all it changes is the covariance, where the row and
  the column of every such state are set to zero, its variance included; every other
  entry of the covariance is as before.
\<close>

theorem fuseDrag_update_negative_variance:
  assumes "drag_test_ratio e axis_index \<le> 1"
    and "\<exists>i < k_num_states. P e i i < KHP_of indet Kfusion Hfusion (P e) i i"
  shows "fuseDrag_update fixCovarianceErrors indet Kfusion Hfusion axis_index e
       = e\<lparr>P := (\<lambda>r c. if offending (KHP_of indet Kfusion Hfusion (P e)) (P e) r
                          \<or> offending (KHP_of indet Kfusion Hfusion (P e)) (P e) c
                       then 0 else P e r c)\<rparr>"
proof -
  from assms(2) have "\<not> fuseDrag_healthy indet Kfusion Hfusion e"
    by (simp add: fuseDrag_healthy_iff)
  with assms(1) show ?thesis by (rule fuseDrag_update_unhealthy)
qed

theorem fuseDrag_update_negative_variance_witness:
  "drag_test_ratio ekf_neg_x 0 \<le> 1
   \<and> (\<exists>i < k_num_states. P ekf_neg_x i i < KHP_of zero_vec K_neg H_north (P ekf_neg_x) i i)
   \<and> fuseDrag_update fixCovarianceErrors_spec zero_vec K_neg H_north 0 ekf_neg_x
       = ekf_neg_x\<lparr>P := (\<lambda>r c. if r = 22 \<or> c = 22 then 0 else P ekf_neg_x r c)\<rparr>"
  using fuseDrag_update_negative_variance [OF gate_neg_x negative_variance_neg_x,
      of fixCovarianceErrors_spec] gate_neg_x negative_variance_neg_x
  by (simp add: offending_neg_x)

subsection \<open>Witnesses on the test inputs\<close>

lemma R_ACC_east: "R_ACC (fuseDrag_locals ekf_east) = 1/4"
  by (simp add: ekf_east_def locals_test)

lemma ill_conditioned_east:
  "innov_var_computed (fuseDrag_locals ekf_east) 0 Map.empty ekf_east
     < R_ACC (fuseDrag_locals ekf_east)"
  unfolding innov_var_east_x R_ACC_east by simp

theorem fuseDrag_loop_ill_conditioned_witness:
  "(0::nat) < 2
   \<and> innov_var_computed (fuseDrag_locals ekf_east) 0 Map.empty ekf_east
       < R_ACC (fuseDrag_locals ekf_east)
   \<and> fuseDrag_loop fixCovarianceErrors_spec zero_vec (fuseDrag_locals ekf_east) [0, 1] []
         Map.empty ekf_east
       = fuseDrag_loop fixCovarianceErrors_spec zero_vec (fuseDrag_locals ekf_east) [0] []
           Map.empty ekf_east
   \<and> state (fuseDrag_loop fixCovarianceErrors_spec zero_vec (fuseDrag_locals ekf_east) [0, 1] []
         Map.empty ekf_east) = state ekf_east
   \<and> P (fuseDrag_loop fixCovarianceErrors_spec zero_vec (fuseDrag_locals ekf_east) [0, 1] []
         Map.empty ekf_east) = P ekf_east"
proof -
  have h1: "(0::nat) < 2" by simp
  from fuseDrag_loop_ill_conditioned [OF h1 ill_conditioned_east,
      of fixCovarianceErrors_spec zero_vec "[1]" "[]"] h1 ill_conditioned_east
  show ?thesis by blast
qed

text \<open>
  C8, as stated, fails on the code.  Moving east as above, the innovation of the X axis
  for this sample is 0 and its variance 23/100 is below the noise; after the call the
  published innovation and test ratio of the X axis are still 7 and 9, the values of
  the earlier call, and only the variance has been written.
\<close>

theorem fuseDrag_abort_keeps_old_innovation:
  "innov_var_computed (fuseDrag_locals ekf_east) 0 Map.empty ekf_east
     < R_ACC (fuseDrag_locals ekf_east)
   \<and> drag_innovation (fuseDrag_locals ekf_east) ekf_east 0 = 0
   \<and> drag_innov ekf_east 0 = 7
   \<and> drag_test_ratio ekf_east 0 = 9
   \<and> drag_innov (fuseDrag fixCovarianceErrors_spec zero_vec ekf_east) 0 = 7
   \<and> drag_test_ratio (fuseDrag fixCovarianceErrors_spec zero_vec ekf_east) 0 = 9
   \<and> drag_innov_var (fuseDrag fixCovarianceErrors_spec zero_vec ekf_east) 0 = 23/100"
proof -
  have i: "drag_innovation (fuseDrag_locals ekf_east) ekf_east 0 = 0"
    by (simp add: drag_innovation_def drag_predAccel_def drag_mea_acc_def ekf_east_def
        locals_test fields_test state_test_fields zero_vec_def sq_def)
  have o: "drag_innov ekf_east 0 = 7" "drag_test_ratio ekf_east 0 = 9"
    by (simp_all add: ekf_east_def fields_test)
  have n: "drag_innov (fuseDrag fixCovarianceErrors_spec zero_vec ekf_east) 0 = 7"
    "drag_test_ratio (fuseDrag fixCovarianceErrors_spec zero_vec ekf_east) 0 = 9"
    "drag_innov_var (fuseDrag fixCovarianceErrors_spec zero_vec ekf_east) 0 = 23/100"
    unfolding fuseDrag_east by (simp_all add: ekf_east_x_def ekf_east_def fields_test)
  show ?thesis
    using ill_conditioned_east i o n by (intro conjI)
qed

lemma innov_var_east:
  "innov_var (fuseDrag_locals ekf_east) ekf_east 0 = 23/100"
  unfolding innov_var_computed_eq [of 0 "fuseDrag_locals ekf_east" Map.empty ekf_east, simplified,
      symmetric]
  by (rule innov_var_east_x)

theorem fuseDrag_loop_abort_published_witness:
  "(0::nat) < 2
   \<and> innov_var (fuseDrag_locals ekf_east) ekf_east 0 < R_ACC (fuseDrag_locals ekf_east)
   \<and> innov_var (fuseDrag_locals ekf_east) ekf_east 0 = 23/100
   \<and> drag_innov_var ekf_east 0 = 0
   \<and> fuseDrag_loop fixCovarianceErrors_spec zero_vec (fuseDrag_locals ekf_east) [0, 1] []
         Map.empty ekf_east
       = ekf_east\<lparr>drag_innov_var := (drag_innov_var ekf_east)(0 := 23/100)\<rparr>"
proof -
  have h1: "(0::nat) < 2" by simp
  have h2: "innov_var (fuseDrag_locals ekf_east) ekf_east 0 < R_ACC (fuseDrag_locals ekf_east)"
    unfolding innov_var_east R_ACC_east by simp
  have o: "drag_innov_var ekf_east 0 = 0"
    by (simp add: ekf_east_def fields_test zero_vec_def)
  from fuseDrag_loop_abort_published [OF h1 h2, of fixCovarianceErrors_spec zero_vec "[1]" "[]"
      Map.empty]
  have r: "fuseDrag_loop fixCovarianceErrors_spec zero_vec (fuseDrag_locals ekf_east) [0, 1] []
         Map.empty ekf_east
       = ekf_east\<lparr>drag_innov_var := (drag_innov_var ekf_east)(0 := 23/100)\<rparr>"
    unfolding innov_var_east .
  show ?thesis
    using h1 h2 innov_var_east o r by (intro conjI)
qed

lemma fixCovarianceErrors_spec_repairs:
  "\<forall>e'. symmetric (fixCovarianceErrors_spec e') \<and> variances_nonneg (fixCovarianceErrors_spec e')"
  by (simp add: symmetric_def variances_nonneg_def fixCovarianceErrors_spec_def)

theorem fuseDrag_update_accepted_covariance_witness:
  "drag_test_ratio ekf_north_x 0 \<le> 1
   \<and> fuseDrag_healthy indet_4 K_north H_north ekf_north_x
   \<and> (\<forall>e'. symmetric (fixCovarianceErrors_spec e') \<and> variances_nonneg (fixCovarianceErrors_spec e'))
   \<and> variances_nonneg
        (\<lambda>r c. P ekf_north_x r c - KHP_of indet_4 K_north H_north (P ekf_north_x) r c)
   \<and> P (fuseDrag_update fixCovarianceErrors_spec indet_4 K_north H_north 0 ekf_north_x)
       = fixCovarianceErrors_spec
           (ekf_north_x\<lparr>P := (\<lambda>r c. P ekf_north_x r c
                                 - KHP_of indet_4 K_north H_north (P ekf_north_x) r c)\<rparr>)
   \<and> symmetric (P (fuseDrag_update fixCovarianceErrors_spec indet_4 K_north H_north 0 ekf_north_x))
   \<and> variances_nonneg
        (P (fuseDrag_update fixCovarianceErrors_spec indet_4 K_north H_north 0 ekf_north_x))"
  using fuseDrag_update_accepted_covariance
      [OF gate_north_x healthy_north_x(2) fixCovarianceErrors_spec_repairs]
    gate_north_x healthy_north_x(2) fixCovarianceErrors_spec_repairs
  by blast

subsection \<open>At rest: both axes are fused with a zero innovation\<close>

lemma pass_x_rest:
  "fuseDrag_axis (fuseDrag_locals ekf_rest) 0 [] Map.empty ekf_rest
     = Next ekf_rest_x H_rest K_rest"
  unfolding fuseDrag_axis_def fuseDrag_axis_x_def Let_def ekf_rest_x_def
  unfolding ekf_rest_def
  by (simp add: locals_test fields_test state_test_fields P_cross_def zero_vec_def sq_def
      power2_eq_square H_rest_def K_rest_def)

lemma fields_rest_x:
  "P ekf_rest_x = P_cross 0" "drag_test_ratio ekf_rest_x 0 = 0"
  "drag_innov ekf_rest_x 0 = 0" "drag_innov_var ekf_rest_x = zero_vec(0 := 27/100)"
  "state ekf_rest_x = state_test 0 0"
  "accelXY (drag_sample_delayed ekf_rest_x) = zero_vec" "dt_ekf_avg ekf_rest_x = 1"
  by (simp_all add: ekf_rest_x_def ekf_rest_def fields_test)

lemma healthy_rest_x: "fuseDrag_healthy zero_vec K_rest H_rest ekf_rest_x"
  unfolding fuseDrag_healthy_iff fields_rest_x
  by (auto simp: KHP_of_def read_gain_def K_rest_def H_rest_def zero_vec_def
      P_cross_def k_num_states_def)

lemma update_x_rest:
  "fuseDrag_update fixCovarianceErrors_spec zero_vec K_rest H_rest 0 ekf_rest_x = ekf_rest_fused"
  unfolding ekf_rest_fused_def
  by (rule fuseDrag_update_healthy [OF _ healthy_rest_x]) (simp add: fields_rest_x)

lemma fields_rest_fused:
  "state ekf_rest_fused = state_test 0 0"
  "accelXY (drag_sample_delayed ekf_rest_fused) = zero_vec" "dt_ekf_avg ekf_rest_fused = 1"
  "drag_innov_var ekf_rest_fused = zero_vec(0 := 27/100)"
  unfolding ekf_rest_fused_def fused_def
  by (simp_all add: fields_rest_x fuse_zero_innovation)

lemma P_rest_fused:
  "P ekf_rest_fused r c
     = (if r = c then (if r = 22 then 26/27 else if r < 24 then 1 else 0)
        else if (r = 4 \<and> c = 22) \<or> (r = 22 \<and> c = 4) then 1/54 else 0)"
  unfolding ekf_rest_fused_def fused_def
  by (auto simp add: fields_rest_x fixCovarianceErrors_spec_def KHP_of_def read_gain_def
      K_rest_def H_rest_def zero_vec_def P_cross_def k_num_states_def)

lemma innov_var_rest_y:
  "innov_var_computed (fuseDrag_locals ekf_rest) 1 K_rest ekf_rest_fused = 27/100"
  unfolding innov_var_computed_def fuseDrag_axis_def fuseDrag_axis_y_def Let_def flow_Ekf_def
  unfolding ekf_rest_def
  by (simp add: locals_test fields_rest_fused state_test_fields P_rest_fused zero_vec_def sq_def
      power2_eq_square)

lemma hover_rest: "hover ekf_rest"
  by (simp add: hover_def ekf_rest_def fields_test state_test_def zero_vec_def Vector3f_def)


lemma K_rest_again: "K_rest(22 \<mapsto> 10/27, 23 \<mapsto> 0) = K_rest"
  by (auto simp: K_rest_def fun_eq_iff)

lemma pass_y_rest:
  "fuseDrag_axis (fuseDrag_locals ekf_rest) 1 H_rest K_rest ekf_rest_fused
     = Next ekf_rest_y H_rest_y K_rest"
proof -
  have "fuseDrag_axis (fuseDrag_locals ekf_rest) 1 H_rest K_rest ekf_rest_fused
     = Next ekf_rest_y H_rest_y (K_rest(22 \<mapsto> 10/27, 23 \<mapsto> 0))"
    unfolding fuseDrag_axis_def fuseDrag_axis_y_def Let_def ekf_rest_y_def
    unfolding ekf_rest_def
    by (simp add: locals_test fields_rest_fused state_test_fields P_rest_fused zero_vec_def
        sq_def power2_eq_square H_rest_y_def)
  then show ?thesis unfolding K_rest_again .
qed

lemma fields_rest_y:
  "drag_test_ratio ekf_rest_y (Suc 0) = 0" "drag_innov ekf_rest_y (Suc 0) = 0"
  "drag_innov_var ekf_rest_y (Suc 0) = 27/100"
  by (simp_all add: ekf_rest_y_def)

lemma P_rest_y: "P ekf_rest_y = P ekf_rest_fused"
  by (simp add: ekf_rest_y_def)

lemma healthy_rest_y: "fuseDrag_healthy zero_vec K_rest H_rest_y ekf_rest_y"
  unfolding fuseDrag_healthy_iff P_rest_y
  by (auto simp: KHP_of_def read_gain_def K_rest_def H_rest_y_def zero_vec_def
      P_rest_fused k_num_states_def)

subsection \<open>At rest with a negative covariance: the variance check of the X axis fails\<close>

lemma pass_x_rest_neg:
  "fuseDrag_axis (fuseDrag_locals ekf_rest_neg) 0 [] Map.empty ekf_rest_neg
     = Next ekf_rest_neg_x H_rest K_rest_neg"
  unfolding fuseDrag_axis_def fuseDrag_axis_x_def Let_def ekf_rest_neg_x_def
  unfolding ekf_rest_neg_def
  by (simp add: locals_test fields_test state_test_fields P_cross_def zero_vec_def sq_def
      power2_eq_square H_rest_def K_rest_neg_def)

lemma fields_rest_neg_x:
  "P ekf_rest_neg_x = P_cross (- 10)" "drag_test_ratio ekf_rest_neg_x 0 = 0"
  "drag_innov ekf_rest_neg_x 0 = 0" "drag_innov_var ekf_rest_neg_x 0 = 47/100"
  "state ekf_rest_neg_x = state_test 0 0"
  by (simp_all add: ekf_rest_neg_x_def ekf_rest_neg_def fields_test)

lemma KHP_rest_neg_22:
  "KHP_of zero_vec K_rest_neg H_rest (P ekf_rest_neg_x) 22 22 = 121/47"
  by (simp add: fields_rest_neg_x KHP_of_def read_gain_def K_rest_neg_def H_rest_def P_cross_def
      k_num_states_def)

lemma unhealthy_rest_neg_x: "\<not> fuseDrag_healthy zero_vec K_rest_neg H_rest ekf_rest_neg_x"
proof -
  have "P ekf_rest_neg_x 22 22 < KHP_of zero_vec K_rest_neg H_rest (P ekf_rest_neg_x) 22 22"
    unfolding KHP_rest_neg_22 by (simp add: fields_rest_neg_x P_cross_def)
  moreover have "22 < k_num_states" by (simp add: k_num_states_def)
  ultimately show ?thesis unfolding fuseDrag_healthy_iff by blast
qed

lemma offending_rest_neg_x:
  "offending (KHP_of zero_vec K_rest_neg H_rest (P ekf_rest_neg_x)) (P ekf_rest_neg_x) i
     \<longleftrightarrow> i = 22"
  unfolding offending_def fields_rest_neg_x
  by (auto simp: KHP_of_def read_gain_def K_rest_neg_def H_rest_def zero_vec_def P_cross_def
      k_num_states_def)

lemma hover_rest_neg: "hover ekf_rest_neg"
  by (simp add: hover_def ekf_rest_neg_def fields_test state_test_def zero_vec_def Vector3f_def)

text \<open>
  C9, as stated, fails on the code.  At rest in the hover scenario, with the covariance -10
  between states 4 and 22, the conditioning check of the X axis passes (variance 47/100,
  noise 1/4) and the test ratio is 0, so the consistency check passes; yet the correction
  \<open>KHP(22,22) = 121/47\<close> exceeds the variance 1 of state 22, the variance check fails and
  the update is not applied: no \<open>P - KHP\<close> and no gain, only the row and the column of
  state 22 are set to zero.
\<close>

theorem hover_gate_passed_gain_not_applied:
  "hover ekf_rest_neg
   \<and> fuseDrag_axis (fuseDrag_locals ekf_rest_neg) 0 [] Map.empty ekf_rest_neg
       = Next ekf_rest_neg_x H_rest K_rest_neg
   \<and> drag_innov_var ekf_rest_neg_x 0 = 47/100
   \<and> R_ACC (fuseDrag_locals ekf_rest_neg) = 1/4
   \<and> drag_innov ekf_rest_neg_x 0 = 0
   \<and> drag_test_ratio ekf_rest_neg_x 0 = 0
   \<and> P ekf_rest_neg_x 22 22 = 1
   \<and> KHP_of zero_vec K_rest_neg H_rest (P ekf_rest_neg_x) 22 22 = 121/47
   \<and> \<not> fuseDrag_healthy zero_vec K_rest_neg H_rest ekf_rest_neg_x
   \<and> fuseDrag_update fixCovarianceErrors_spec zero_vec K_rest_neg H_rest 0 ekf_rest_neg_x
       = ekf_rest_neg_x\<lparr>P := (\<lambda>r c. if r = 22 \<or> c = 22 then 0 else P ekf_rest_neg_x r c)\<rparr>"
proof -
  have g: "drag_test_ratio ekf_rest_neg_x 0 \<le> 1" by (simp add: fields_rest_neg_x)
  have u: "fuseDrag_update fixCovarianceErrors_spec zero_vec K_rest_neg H_rest 0 ekf_rest_neg_x
       = ekf_rest_neg_x\<lparr>P := (\<lambda>r c. if r = 22 \<or> c = 22 then 0 else P ekf_rest_neg_x r c)\<rparr>"
    unfolding fuseDrag_update_unhealthy [OF g unhealthy_rest_neg_x] offending_rest_neg_x ..
  have R: "R_ACC (fuseDrag_locals ekf_rest_neg) = 1/4"
    by (simp add: ekf_rest_neg_def locals_test)
  have v: "P ekf_rest_neg_x 22 22 = 1" by (simp add: fields_rest_neg_x P_cross_def)
  show ?thesis
    using hover_rest_neg pass_x_rest_neg fields_rest_neg_x(4) R fields_rest_neg_x(3)
      fields_rest_neg_x(2) v KHP_rest_neg_22 unhealthy_rest_neg_x u
    by (intro conjI)
qed

theorem fuseDrag_hover_witness:
  "\<not> (bcoef_x (params ekf_rest) < 1 \<or> bcoef_y (params ekf_rest) < 1)
   \<and> hover ekf_rest
   \<and> drag_noise (params ekf_rest) \<noteq> 0
   \<and> dt_ekf_avg ekf_rest \<noteq> 0
   \<and> fuseDrag_axis (fuseDrag_locals ekf_rest) 0 [] (\<lambda>_. None) ekf_rest
       = Next ekf_rest_x H_rest K_rest
   \<and> fuseDrag_axis (fuseDrag_locals ekf_rest) 1 H_rest K_rest
         (fuseDrag_update fixCovarianceErrors_spec zero_vec K_rest H_rest 0 ekf_rest_x)
       = Next ekf_rest_y H_rest_y K_rest
   \<and> rel_wind_body (fuseDrag_locals ekf_rest) 0 = 0
   \<and> rel_wind_body (fuseDrag_locals ekf_rest) 1 = 0
   \<and> rel_wind_body (fuseDrag_locals ekf_rest) 2 = 0
   \<and> drag_predAccel (BC_inv_x (fuseDrag_locals ekf_rest)) (fuseDrag_locals ekf_rest) 0 = 0
   \<and> drag_predAccel (BC_inv_y (fuseDrag_locals ekf_rest)) (fuseDrag_locals ekf_rest) 1 = 0
   \<and> 0 < drag_innov_var ekf_rest_x 0 \<and> drag_innov ekf_rest_x 0 = 0
   \<and> drag_test_ratio ekf_rest_x 0 = 0
   \<and> fuseDrag_healthy zero_vec K_rest H_rest ekf_rest_x
   \<and> fuseDrag_update fixCovarianceErrors_spec zero_vec K_rest H_rest 0 ekf_rest_x
       = fused fixCovarianceErrors_spec zero_vec K_rest H_rest 0 ekf_rest_x
   \<and> 0 < drag_innov_var ekf_rest_y 1 \<and> drag_innov ekf_rest_y 1 = 0
   \<and> drag_test_ratio ekf_rest_y 1 = 0
   \<and> fuseDrag_healthy zero_vec K_rest H_rest_y ekf_rest_y
   \<and> fuseDrag_update fixCovarianceErrors_spec zero_vec K_rest H_rest_y 1 ekf_rest_y
       = fused fixCovarianceErrors_spec zero_vec K_rest H_rest_y 1 ekf_rest_y
   \<and> fuseDrag fixCovarianceErrors_spec zero_vec ekf_rest
       = fused fixCovarianceErrors_spec zero_vec K_rest H_rest_y 1 ekf_rest_y
   \<and> drag_innov (fuseDrag fixCovarianceErrors_spec zero_vec ekf_rest) 0 = 0
   \<and> drag_innov (fuseDrag fixCovarianceErrors_spec zero_vec ekf_rest) 1 = 0
   \<and> drag_test_ratio (fuseDrag fixCovarianceErrors_spec zero_vec ekf_rest) 0 = 0
   \<and> drag_test_ratio (fuseDrag fixCovarianceErrors_spec zero_vec ekf_rest) 1 = 0
   \<and> wind_vel (state (fuseDrag fixCovarianceErrors_spec zero_vec ekf_rest))
       = wind_vel (state ekf_rest)"
proof -
  have h1: "\<not> (bcoef_x (params ekf_rest) < 1 \<or> bcoef_y (params ekf_rest) < 1)"
    using fields_test(9) [of 0 0 "P_cross 0"] by (simp add: ekf_rest_def)
  have h3: "drag_noise (params ekf_rest) \<noteq> 0" by (simp add: ekf_rest_def ekf_test_def)
  have h4: "dt_ekf_avg ekf_rest \<noteq> 0" by (simp add: ekf_rest_def fields_test)
  have h5: "fuseDrag_axis (fuseDrag_locals ekf_rest) 0 [] (\<lambda>_. None) ekf_rest
       = Next ekf_rest_x H_rest K_rest"
    by (rule pass_x_rest)
  have h6: "fuseDrag_axis (fuseDrag_locals ekf_rest) 1 H_rest K_rest
         (fuseDrag_update fixCovarianceErrors_spec zero_vec K_rest H_rest 0 ekf_rest_x)
       = Next ekf_rest_y H_rest_y K_rest"
    unfolding update_x_rest by (rule pass_y_rest)
  note t = fuseDrag_hover [OF h1 hover_rest h3 h4 h5 h6]
  from t healthy_rest_x healthy_rest_y
  have ux: "fuseDrag_update fixCovarianceErrors_spec zero_vec K_rest H_rest 0 ekf_rest_x
       = fused fixCovarianceErrors_spec zero_vec K_rest H_rest 0 ekf_rest_x"
    and uy: "fuseDrag_update fixCovarianceErrors_spec zero_vec K_rest H_rest_y 1 ekf_rest_y
       = fused fixCovarianceErrors_spec zero_vec K_rest H_rest_y 1 ekf_rest_y"
    by blast+
  from t uy have F: "fuseDrag fixCovarianceErrors_spec zero_vec ekf_rest
       = fused fixCovarianceErrors_spec zero_vec K_rest H_rest_y 1 ekf_rest_y"
    by simp
  from t have rest:
    "rel_wind_body (fuseDrag_locals ekf_rest) 0 = 0"
    "rel_wind_body (fuseDrag_locals ekf_rest) 1 = 0"
    "rel_wind_body (fuseDrag_locals ekf_rest) 2 = 0"
    "drag_predAccel (BC_inv_x (fuseDrag_locals ekf_rest)) (fuseDrag_locals ekf_rest) 0 = 0"
    "drag_predAccel (BC_inv_y (fuseDrag_locals ekf_rest)) (fuseDrag_locals ekf_rest) 1 = 0"
    "0 < drag_innov_var ekf_rest_x 0" "drag_innov ekf_rest_x 0 = 0"
    "drag_test_ratio ekf_rest_x 0 = 0"
    "0 < drag_innov_var ekf_rest_y 1" "drag_innov ekf_rest_y 1 = 0"
    "drag_test_ratio ekf_rest_y 1 = 0"
    "drag_innov (fuseDrag fixCovarianceErrors_spec zero_vec ekf_rest) 0 = 0"
    "drag_innov (fuseDrag fixCovarianceErrors_spec zero_vec ekf_rest) 1 = 0"
    "drag_test_ratio (fuseDrag fixCovarianceErrors_spec zero_vec ekf_rest) 0 = 0"
    "drag_test_ratio (fuseDrag fixCovarianceErrors_spec zero_vec ekf_rest) 1 = 0"
    "wind_vel (state (fuseDrag fixCovarianceErrors_spec zero_vec ekf_rest))
       = wind_vel (state ekf_rest)"
    by blast+
  show ?thesis
    using h1 hover_rest h3 h4 h5 h6 rest(1-8) healthy_rest_x ux rest(9-11) healthy_rest_y uy F
      rest(12-16)
    by (intro conjI)
qed

end
